theory Spec2Isabelle
  imports Main "HOL-Library.Sublist"
begin

section \<open>Python strings\<close>

text \<open>
  A Python \<open>str\<close> is a sequence of code points. It is modelled as a \<open>string\<close> whose
  characters stand for the code points 0 to 255 (the Latin-1 range); the character classes
  below are Python's own tables on that range: \<open>str.isspace\<close> (which is also \<open>\s\<close> of
  \<open>re\<close> and the separator set of \<open>str.split()\<close>) and \<open>\w\<close> of \<open>re\<close> on \<open>str\<close> patterns.
\<close>

definition isspace :: "char \<Rightarrow> bool" where
  "isspace c =
     (let n = (of_char c :: nat)
      in (9 \<le> n \<and> n \<le> 13) \<or> (28 \<le> n \<and> n \<le> 32) \<or> n = 133 \<or> n = 160)"

definition isword :: "char \<Rightarrow> bool" where
  "isword c =
     (let n = (of_char c :: nat)
      in (48 \<le> n \<and> n \<le> 57) \<or> (65 \<le> n \<and> n \<le> 90) \<or> n = 95 \<or> (97 \<le> n \<and> n \<le> 122)
         \<or> n = 170 \<or> n = 178 \<or> n = 179 \<or> n = 181 \<or> n = 185 \<or> n = 186
         \<or> (188 \<le> n \<and> n \<le> 190) \<or> (192 \<le> n \<and> n \<le> 214) \<or> (216 \<le> n \<and> n \<le> 246)
         \<or> 248 \<le> n)"

text \<open>The class \<open>[A-Za-z]\<close> of the weekday pattern.\<close>

definition ascii_letter :: "char \<Rightarrow> bool" where
  "ascii_letter c =
     (let n = (of_char c :: nat) in (65 \<le> n \<and> n \<le> 90) \<or> (97 \<le> n \<and> n \<le> 122))"

text \<open>
  A letter, as \<open>str.isalpha\<close> has it on this range: the ASCII letters and the letters of
  the Latin-1 supplement.
\<close>

definition isalpha :: "char \<Rightarrow> bool" where
  "isalpha c =
     (let n = (of_char c :: nat)
      in (65 \<le> n \<and> n \<le> 90) \<or> (97 \<le> n \<and> n \<le> 122) \<or> n = 170 \<or> n = 181 \<or> n = 186
         \<or> (192 \<le> n \<and> n \<le> 214) \<or> (216 \<le> n \<and> n \<le> 246) \<or> 248 \<le> n)"

text \<open>\<open>s.strip()\<close>: whitespace removed at both ends.\<close>

definition py_strip :: "string \<Rightarrow> string" where
  "py_strip s = rev (dropWhile isspace (rev (dropWhile isspace s)))"

text \<open>
  \<open>s.split()\<close> with no separator: one scan from the left; \<open>w\<close> is the word being
  collected, closed by a whitespace character or by the end of the string; empty words
  are not produced.
\<close>

fun split_scan :: "string \<Rightarrow> string \<Rightarrow> string list" where
  "split_scan w [] = (if w = [] then [] else [w])"
| "split_scan w (c # cs) =
     (if isspace c then (if w = [] then split_scan [] cs else w # split_scan [] cs)
      else split_scan (w @ [c]) cs)"

definition py_split :: "string \<Rightarrow> string list" where
  "py_split s = split_scan [] s"

text \<open>\<open>sep.join(ws)\<close>.\<close>

fun py_join :: "string \<Rightarrow> string list \<Rightarrow> string" where
  "py_join sep [] = []"
| "py_join sep [w] = w"
| "py_join sep (w # v # ws) = w @ sep @ py_join sep (v # ws)"

section \<open>clean\_date\_string\<close>

subsection \<open>The weekday pattern\<close>

text \<open>
  \<open>re.sub(r'^[A-Za-z]{2,9},\s*', '', date_str)\<close>. Without \<open>re.MULTILINE\<close> the anchor
  holds at position 0 only, so at most one match is replaced. The greedy \<open>{2,9}\<close> takes
  as many letters as it can and gives them back one at a time until a comma follows: the
  candidate lengths are tried from 9 down to 2. \<open>\s*\<close> then takes every whitespace
  character that follows. The result of \<open>weekday_match\<close> is the end of the match.
\<close>

definition weekday_match :: "string \<Rightarrow> nat option" where
  "weekday_match s =
     (case find (\<lambda>n. n < length s \<and> list_all ascii_letter (take n s) \<and> s ! n = CHR '','')
                [9, 8, 7, 6, 5, 4, 3, 2]
      of None \<Rightarrow> None
       | Some n \<Rightarrow> Some (Suc n + length (takeWhile isspace (drop (Suc n) s))))"

definition sub_weekday :: "string \<Rightarrow> string" where
  "sub_weekday s = (case weekday_match s of None \<Rightarrow> s | Some e \<Rightarrow> drop e s)"

subsection \<open>The timezone pattern\<close>

definition tz_abbrevs :: "string list" where
  "tz_abbrevs = [''EST'', ''EDT'', ''CST'', ''CDT'', ''MST'', ''MDT'', ''PST'', ''PDT'']"

text \<open>
  \<open>\b\<close> holds between two positions when exactly one of the characters on its two sides
  is a word character; the start and the end of the string count as non-word.
\<close>

definition word_boundary :: "char option \<Rightarrow> string \<Rightarrow> bool" where
  "word_boundary prev rest =
     ((case prev of None \<Rightarrow> False | Some p \<Rightarrow> isword p)
        \<noteq> (case rest of [] \<Rightarrow> False | c # _ \<Rightarrow> isword c))"

text \<open>
  A match of \<open>\b(?:EST|EDT|CST|CDT|MST|MDT|PST|PDT)\b\<close> at the current position, where
  \<open>prev\<close> is the character before it: the alternatives are tried in their order.
\<close>

definition tz_match :: "char option \<Rightarrow> string \<Rightarrow> string option" where
  "tz_match prev s =
     (if word_boundary prev s
      then find (\<lambda>a. take (length a) s = a \<and> word_boundary (Some (last a)) (drop (length a) s))
                tz_abbrevs
      else None)"

lemma tz_match_length:
  assumes "tz_match prev s = Some a"
  shows "length a = 3"
proof -
  from assms have "a \<in> set tz_abbrevs"
    by (auto simp: tz_match_def find_Some_iff split: if_splits)
  then show ?thesis
    by (auto simp: tz_abbrevs_def)
qed

text \<open>
  \<open>re.sub(pattern, '', s)\<close> scans from the left: where the pattern matches, the match is
  dropped and the scan goes on after it; elsewhere the character is copied.
\<close>

function sub_tz :: "char option \<Rightarrow> string \<Rightarrow> string" where
  "sub_tz prev [] = []"
| "sub_tz prev (c # cs) =
     (case tz_match prev (c # cs) of
        Some a \<Rightarrow> sub_tz (Some (last a)) (drop (length a) (c # cs))
      | None \<Rightarrow> c # sub_tz (Some c) cs)"
  by pat_completeness auto
termination
  by (relation "measure (\<lambda>(prev, s). length s)") (auto dest: tz_match_length)

subsection \<open>The function\<close>

text \<open>
  \<open>None\<close> is Python's \<open>None\<close>, returned for an empty (falsy) argument.
\<close>

definition clean_date_string :: "string \<Rightarrow> string option" where
  "clean_date_string date_str =
     (if date_str = [] then None
      else
        let date_str1 = sub_weekday date_str;
            date_str2 = sub_tz None date_str1;
            date_str3 = py_join '' '' (py_split date_str2)
        in Some (py_strip date_str3))"


section \<open>calculate\_duration\<close>

text \<open>
  The exceptions that matter to the control flow of the program. \<open>OtherError\<close> stands for
  any exception class that is none of the named ones.
\<close>

datatype py_exn = ValueError | KeyError | RequestException | OtherError

text \<open>
  A \<open>datetime\<close> value: \<open>wall\<close> is its wall-clock reading (the date and time fields) in
  microseconds from a fixed origin, \<open>tzinfo\<close> its zone object, \<open>None\<close> for a naive value.
  Subtracting two values that carry the same \<open>tzinfo\<close> object, or none, subtracts the
  wall-clock readings; \<open>timedelta.days\<close> is the floor of the difference in days (the
  seconds and microseconds of a \<open>timedelta\<close> are never negative).
\<close>

record 'tz datetime =
  wall :: int
  tzinfo :: "'tz option"

definition usec_per_day :: int where
  "usec_per_day = 86400000000"

definition timedelta_days :: "int \<Rightarrow> int \<Rightarrow> int" where
  "timedelta_days a b = (a - b) div usec_per_day"

text \<open>
  The date library, outside the repository: \<open>dateutil.parser.parse\<close>,
  \<open>datetime.strptime\<close>, and the clock \<open>datetime.now(tz)\<close> (\<open>datetime.now()\<close> is
  \<open>datetime.now(None)\<close>), which gives the wall-clock reading of the evaluation instant in
  the zone \<open>tz\<close>, or on the local clock for \<open>None\<close>. A call of the first two returns
  \<open>Inr\<close> of its value or \<open>Inl\<close> of the exception it raises.
\<close>

record 'tz datelib =
  dateutil_parse :: "string \<Rightarrow> py_exn + 'tz datetime"
  strptime :: "string \<Rightarrow> string \<Rightarrow> py_exn + 'tz datetime"
  datetime_now :: "'tz option \<Rightarrow> int"

definition date_formats :: "string list" where
  "date_formats =
     [''%a, %d %b %Y %H:%M:%S %z'',
      ''%a, %d %b %Y %H:%M:%S %Z'',
      ''%Y-%m-%dT%H:%M:%S%z'',
      ''%Y-%m-%d %H:%M:%S'',
      ''%d %b %Y %H:%M:%S'',
      ''%a, %d %b %Y %H:%M:%S'',
      ''%Y-%m-%d'',
      ''%b %d, %Y %H:%M:%S'',
      ''%d-%m-%Y %H:%M:%S'',
      ''%m/%d/%Y %H:%M:%S'',
      ''%Y%m%d'']"

text \<open>
  The calls made to the date library are recorded, in their order, beside the result, so
  that what was tried and what was not can be stated.
\<close>

datatype attempt = Dateutil string | Strptime string string

text \<open>
  The \<open>for fmt in date_formats\<close> loop: \<open>break\<close> at the first success, \<open>continue\<close> on
  \<open>ValueError\<close>; any other exception leaves the function.
\<close>

fun try_formats ::
  "('tz, 'm) datelib_scheme \<Rightarrow> string \<Rightarrow> string list \<Rightarrow> attempt list \<times> (py_exn + 'tz datetime option)"
where
  "try_formats L s [] = ([], Inr None)"
| "try_formats L s (fmt # fmts) =
     (case strptime L s fmt of
        Inr d \<Rightarrow> ([Strptime s fmt], Inr (Some d))
      | Inl ValueError \<Rightarrow>
          (case try_formats L s fmts of (tr, r) \<Rightarrow> (Strptime s fmt # tr, r))
      | Inl e \<Rightarrow> ([Strptime s fmt], Inl e))"

text \<open>
  The parsing stage: \<open>parser.parse\<close> under a bare \<open>except\<close>, then the loop when
  \<open>pub_date\<close> is still \<open>None\<close>.
\<close>

definition parse_date ::
  "('tz, 'm) datelib_scheme \<Rightarrow> string \<Rightarrow> attempt list \<times> (py_exn + 'tz datetime option)"
where
  "parse_date L cleaned_date =
     (case dateutil_parse L cleaned_date of
        Inr d \<Rightarrow> ([Dateutil cleaned_date], Inr (Some d))
      | Inl _ \<Rightarrow>
          (case try_formats L cleaned_date date_formats of
             (tr, r) \<Rightarrow> (Dateutil cleaned_date # tr, r)))"

text \<open>The chain of comparisons on \<open>delta.days\<close>.\<close>

definition bucket :: "int \<Rightarrow> string" where
  "bucket days =
     (if days = 0 then ''Today''
      else if days \<le> 7 then ''This Week''
      else if days \<le> 30 then ''This Month''
      else if days \<le> 365 then ''1 Year Ago''
      else if days \<le> 730 then ''2 Years Ago''
      else ''Older'')"

definition calculate_duration :: "('tz, 'm) datelib_scheme \<Rightarrow> string \<Rightarrow> py_exn + string" where
  "calculate_duration L published_date =
     (if published_date = [] then Inr ''Unknown''
      else
        case clean_date_string published_date of
          None \<Rightarrow> Inr ''Unknown''
        | Some cleaned_date \<Rightarrow>
            if cleaned_date = [] then Inr ''Unknown''
            else
              (case snd (parse_date L cleaned_date) of
                 Inl e \<Rightarrow> Inl e
               | Inr None \<Rightarrow> Inr ''Unknown''
               | Inr (Some pub_date) \<Rightarrow>
                   let now = (case tzinfo pub_date of
                                Some tz \<Rightarrow> datetime_now L (Some tz)
                              | None \<Rightarrow> datetime_now L None)
                   in Inr (bucket (timedelta_days now (wall pub_date)))))"

definition labels :: "string list" where
  "labels = [''Today'', ''This Week'', ''This Month'', ''1 Year Ago'', ''2 Years Ago'',
             ''Older'', ''Unknown'']"

section \<open>parse\_feed\<close>

record feed =
  country :: string
  source :: string
  url :: string

text \<open>
  A tag of the parsed feed document has attributes and a text. An item answers
  \<open>item.find(name)\<close> with the first tag of that name, if any; a parsed document answers
  \<open>soup.find_all(name)\<close> with the items of that name, in document order.
\<close>

record tag =
  attrs :: "(string \<times> string) list"
  tag_text :: string

type_synonym item = "string \<Rightarrow> tag option"

type_synonym soup = "string \<Rightarrow> item list"

record article =
  Title :: string
  Summary :: string
  Published :: string
  Link :: string
  Source :: string
  Country :: string
  Language :: string
  Duration :: string

text \<open>
  What the program prints, one constructor for each \<open>print\<close> of the source.
\<close>

datatype msg =
    JobStarted
  | Processing string string
  | NetworkError string
  | ParseError string py_exn
  | Added nat
  | Stored nat string
  | Saved string
  | JobFinished

text \<open>
  The collaborators outside the repository, beside the date library: \<open>probe\<close> is the
  \<open>requests.get\<close> of \<open>is_url_accessible\<close> (the status code, or the exception raised);
  \<open>fetch_soup\<close> is the second \<open>requests.get\<close> followed by the parse of its content
  with \<open>features="xml"\<close>;
  \<open>soup_get_text\<close> is \<open>BeautifulSoup(summary, "html.parser").get_text(separator=" ",
  strip=True)\<close>, which returns the text or raises (the parser rejects some markup, a
  malformed marked section for one); \<open>html_unescape\<close> is \<open>html.unescape\<close>; \<open>detect\<close> is
  \<open>langdetect.detect\<close>. An environment is fixed for a run, so the clock reads the same at
  every item.
\<close>

record 'tz env = "'tz datelib" +
  probe :: "string \<Rightarrow> py_exn + nat"
  fetch_soup :: "string \<Rightarrow> py_exn + soup"
  soup_get_text :: "string \<Rightarrow> py_exn + string"
  html_unescape :: "string \<Rightarrow> string"
  detect :: "string \<Rightarrow> py_exn + string"

definition is_url_accessible :: "('tz, 'm) env_scheme \<Rightarrow> string \<Rightarrow> py_exn + bool" where
  "is_url_accessible E u =
     (case probe E u of
        Inr status_code \<Rightarrow> Inr (status_code = 200)
      | Inl RequestException \<Rightarrow> Inr False
      | Inl e \<Rightarrow> Inl e)"

definition clean_summary :: "('tz, 'm) env_scheme \<Rightarrow> string \<Rightarrow> py_exn + string" where
  "clean_summary E summary =
     (case soup_get_text E summary of
        Inl e \<Rightarrow> Inl e
      | Inr text \<Rightarrow> Inr (html_unescape E text))"

text \<open>\<open>a or b\<close> on the results of \<open>find\<close>: a tag is always truthy.\<close>

definition py_or :: "tag option \<Rightarrow> tag option \<Rightarrow> tag option" where
  "py_or a b = (case a of Some t \<Rightarrow> Some t | None \<Rightarrow> b)"

definition item_link :: "item \<Rightarrow> string" where
  "item_link it =
     (case it ''link'' of
        Some link_tag \<Rightarrow>
          (case map_of (attrs link_tag) ''href'' of
             Some href \<Rightarrow> href
           | None \<Rightarrow> py_strip (tag_text link_tag))
      | None \<Rightarrow> [])"

definition item_title :: "item \<Rightarrow> string" where
  "item_title it = (case it ''title'' of Some title_tag \<Rightarrow> py_strip (tag_text title_tag) | None \<Rightarrow> [])"

definition item_summary :: "('tz, 'm) env_scheme \<Rightarrow> item \<Rightarrow> py_exn + string" where
  "item_summary E it =
     (case py_or (it ''description'') (py_or (it ''summary'') (it ''content'')) of
        Some summary_tag \<Rightarrow> clean_summary E (tag_text summary_tag)
      | None \<Rightarrow> Inr [])"

definition item_published :: "item \<Rightarrow> string" where
  "item_published it =
     (case py_or (it ''pubDate'') (py_or (it ''updated'') (it ''date'')) of
        Some pub_date_tag \<Rightarrow> py_strip (tag_text pub_date_tag)
      | None \<Rightarrow> [])"

definition item_language :: "('tz, 'm) env_scheme \<Rightarrow> string \<Rightarrow> string \<Rightarrow> string" where
  "item_language E title summary =
     (let text_for_lang = py_strip (title @ '' '' @ summary)
      in if text_for_lang \<noteq> []
         then (case detect E text_for_lang of Inr l \<Rightarrow> l | Inl _ \<Rightarrow> ''unknown'')
         else ''unknown'')"

text \<open>
  The body of the loop over the items: \<open>Inr (Some a)\<close> when the article \<open>a\<close> is appended,
  \<open>Inr None\<close> when nothing is, \<open>Inl e\<close> when the body raises \<open>e\<close>. The statements run
  in the order of the source: the link and the title, then the summary, whose cleaning
  may raise, then the published string and its duration, then the language, whose
  failure is caught on the spot.
\<close>

definition process_item :: "('tz, 'm) env_scheme \<Rightarrow> feed \<Rightarrow> item \<Rightarrow> py_exn + article option" where
  "process_item E f it =
     (let link = item_link it;
          title = item_title it
      in (case item_summary E it of
            Inl e \<Rightarrow> Inl e
          | Inr summary \<Rightarrow>
              (let published = item_published it
               in (case calculate_duration E published of
                     Inl e \<Rightarrow> Inl e
                   | Inr duration \<Rightarrow>
                       (let language = item_language E title summary
                        in Inr (if title \<noteq> [] \<and> link \<noteq> []
                                then Some \<lparr>Title = title, Summary = summary,
                                           Published = published, Link = link,
                                           Source = source f, Country = country f,
                                           Language = language, Duration = duration\<rparr>
                                else None))))))"

text \<open>
  The loop; an exception leaves it with the entries appended so far, for the
  \<open>except Exception\<close> around it.
\<close>

fun items_loop ::
  "('tz, 'm) env_scheme \<Rightarrow> feed \<Rightarrow> item list \<Rightarrow> article list \<Rightarrow> article list \<times> py_exn option"
where
  "items_loop E f [] entries = (entries, None)"
| "items_loop E f (it # its) entries =
     (case process_item E f it of
        Inl e \<Rightarrow> (entries, Some e)
      | Inr None \<Rightarrow> items_loop E f its entries
      | Inr (Some a) \<Rightarrow> items_loop E f its (entries @ [a]))"

text \<open>
  The result is what was printed and what was returned; \<open>Inl\<close> is an exception that
  leaves \<open>parse_feed\<close> (only \<open>is_url_accessible\<close> is called outside the \<open>try\<close>).
\<close>

definition parse_feed :: "('tz, 'm) env_scheme \<Rightarrow> feed \<Rightarrow> msg list \<times> (py_exn + article list)" where
  "parse_feed E f =
     (case is_url_accessible E (url f) of
        Inl e \<Rightarrow> ([], Inl e)
      | Inr False \<Rightarrow> ([NetworkError (url f)], Inr [])
      | Inr True \<Rightarrow>
          (case fetch_soup E (url f) of
             Inl e \<Rightarrow> ([ParseError (url f) e], Inr [])
           | Inr sp \<Rightarrow>
               (let items = (if sp ''item'' \<noteq> [] then sp ''item'' else sp ''entry'')
                in (case items_loop E f items [] of
                      (entries, None) \<Rightarrow> ([], Inr entries)
                    | (entries, Some e) \<Rightarrow> ([ParseError (url f) e], Inr entries)))))"

fun scrape_loop ::
  "('tz, 'm) env_scheme \<Rightarrow> feed list \<Rightarrow> article list \<Rightarrow> msg list \<times> (py_exn + article list)"
where
  "scrape_loop E [] all_entries = ([], Inr all_entries)"
| "scrape_loop E (f # fs) all_entries =
     (case parse_feed E f of
        (out1, Inl e) \<Rightarrow> (Processing (country f) (source f) # out1, Inl e)
      | (out1, Inr feed_entries) \<Rightarrow>
          (case scrape_loop E fs (all_entries @ feed_entries) of
             (out2, r) \<Rightarrow>
               (Processing (country f) (source f) # out1 @ Added (length feed_entries) # out2, r)))"

definition scrape_all_feeds ::
  "('tz, 'm) env_scheme \<Rightarrow> feed list \<Rightarrow> msg list \<times> (py_exn + article list)"
where
  "scrape_all_feeds E rss_feeds = scrape_loop E rss_feeds []"

section \<open>remove\_duplicates\<close>

text \<open>
  The columns an entry has as a dictionary, in the order the source builds it, each
  with the field it reads.
\<close>

definition article_fields :: "(string \<times> (article \<Rightarrow> string)) list" where
  "article_fields =
     [(''Title'', Title), (''Summary'', Summary), (''Published'', Published), (''Link'', Link),
      (''Source'', Source), (''Country'', Country), (''Language'', Language),
      (''Duration'', Duration)]"

text \<open>
  A pandas \<open>DataFrame\<close> built from a list of such dictionaries: its columns are their
  keys, and a frame built from the empty list has no column at all.
\<close>

record dataframe =
  columns :: "string list"
  rows :: "article list"

definition DataFrame :: "article list \<Rightarrow> dataframe" where
  "DataFrame entries =
     \<lparr>columns = (if entries = [] then [] else map fst article_fields), rows = entries\<rparr>"

text \<open>
  \<open>df[col]\<close>: the values of a column, \<open>KeyError\<close> for a column the frame does not have.
\<close>

definition getitem :: "dataframe \<Rightarrow> string \<Rightarrow> py_exn + string list" where
  "getitem df col =
     (if col \<in> set (columns df)
      then (case map_of article_fields col of
              Some field \<Rightarrow> Inr (map field (rows df))
            | None \<Rightarrow> Inl KeyError)
      else Inl KeyError)"

text \<open>
  \<open>keep='first'\<close>, the default: a row is dropped when a row before it has the same
  values in the columns of \<open>subset\<close>; \<open>seen\<close> holds the values met so far.
\<close>

fun drop_seen :: "'k list \<Rightarrow> ('a \<Rightarrow> 'k) \<Rightarrow> 'a list \<Rightarrow> 'a list" where
  "drop_seen seen key [] = []"
| "drop_seen seen key (x # xs) =
     (if key x \<in> set seen then drop_seen seen key xs
      else x # drop_seen (key x # seen) key xs)"

definition subset_values :: "string list \<Rightarrow> article \<Rightarrow> string option list" where
  "subset_values cols a =
     map (\<lambda>col. case map_of article_fields col of Some field \<Rightarrow> Some (field a) | None \<Rightarrow> None)
         cols"

text \<open>
  \<open>df.drop_duplicates(subset=..., inplace=True)\<close>: an empty frame is left as it is; on
  any other frame a column of \<open>subset\<close> that the frame does not have is a \<open>KeyError\<close>.
\<close>

definition drop_duplicates :: "string list \<Rightarrow> dataframe \<Rightarrow> py_exn + dataframe" where
  "drop_duplicates cols df =
     (if rows df = [] \<or> columns df = [] then Inr df
      else if \<not> set cols \<subseteq> set (columns df) then Inl KeyError
      else Inr (df\<lparr>rows := drop_seen [] (subset_values cols) (rows df)\<rparr>))"

definition remove_duplicates :: "article list \<Rightarrow> py_exn + dataframe" where
  "remove_duplicates entries = drop_duplicates [''Title'', ''Link''] (DataFrame entries)"

section \<open>\_store\_in\_db\<close>

text \<open>
  A Python \<open>dict\<close> as an association list in insertion order: \<open>d.get(k, default)\<close>,
  \<open>d[k] = v\<close> and \<open>d[k]\<close>.
\<close>

definition dict_get :: "('k \<times> 'v) list \<Rightarrow> 'k \<Rightarrow> 'v \<Rightarrow> 'v" where
  "dict_get d k dflt = (case map_of d k of Some v \<Rightarrow> v | None \<Rightarrow> dflt)"

fun dict_set :: "('k \<times> 'v) list \<Rightarrow> 'k \<Rightarrow> 'v \<Rightarrow> ('k \<times> 'v) list" where
  "dict_set [] k v = [(k, v)]"
| "dict_set ((k', v') # d) k v = (if k' = k then (k, v) # d else (k', v') # dict_set d k v)"

definition dict_index :: "('k \<times> 'v) list \<Rightarrow> 'k \<Rightarrow> py_exn + 'v" where
  "dict_index d k = (case map_of d k of Some v \<Rightarrow> Inr v | None \<Rightarrow> Inl KeyError)"

text \<open>The first loop of \<open>_store_in_db\<close>.\<close>

fun count_countries :: "(string \<times> nat) list \<Rightarrow> article list \<Rightarrow> (string \<times> nat) list" where
  "count_countries country_counts [] = country_counts"
| "count_countries country_counts (entry # entries) =
     count_countries
       (dict_set country_counts (Country entry) (dict_get country_counts (Country entry) 0 + 1))
       entries"

text \<open>
  A row of the table \<open>news_articles\<close> (the \<open>id\<close> and \<open>ScrapedAt\<close> columns, which the
  database fills in, are left out). \<open>INSERT OR IGNORE\<close> with \<open>Link TEXT UNIQUE\<close>: the row
  is added unless a row with that link is there. The \<open>except sqlite3.Error\<close> branch only
  prints; failures of the database engine are not modelled.
\<close>

record db_row = article +
  NoofArticles :: nat

definition insert_or_ignore :: "db_row list \<Rightarrow> db_row \<Rightarrow> db_row list" where
  "insert_or_ignore table r = (if Link r \<in> set (map Link table) then table else table @ [r])"

text \<open>The second loop; the lookup \<open>country_counts[entry["Country"]]\<close> is not under the \<open>except\<close>.\<close>

fun store_loop :: "(string \<times> nat) list \<Rightarrow> db_row list \<Rightarrow> article list \<Rightarrow> py_exn + db_row list" where
  "store_loop country_counts table [] = Inr table"
| "store_loop country_counts table (entry # entries) =
     (case dict_index country_counts (Country entry) of
        Inl e \<Rightarrow> Inl e
      | Inr n \<Rightarrow>
          store_loop country_counts
            (insert_or_ignore table (article.extend entry (db_row.fields n))) entries)"

definition store_in_db :: "db_row list \<Rightarrow> article list \<Rightarrow> py_exn + db_row list" where
  "store_in_db table entries = store_loop (count_countries [] entries) table entries"

section \<open>save\_to\_csv and run\<close>

text \<open>
  \<open>df['Country'].value_counts().to_dict()\<close>: each value with the number of its
  occurrences. Only lookups are made in it, so the order of the keys is left aside.
\<close>

definition value_counts :: "string list \<Rightarrow> (string \<times> nat) list" where
  "value_counts xs = map (\<lambda>v. (v, count_list xs v)) (remdups xs)"

text \<open>
  The written file: the header and, for every row, its entry and the new column
  \<open>NoOfArticles\<close> (\<open>Series.map\<close> gives a missing value, here \<open>None\<close>, for a key the
  dictionary does not have).
\<close>

record csv_file =
  header :: "string list"
  csv_rows :: "(article \<times> nat option) list"

definition save_to_csv :: "dataframe \<Rightarrow> py_exn + csv_file" where
  "save_to_csv df =
     (case getitem df ''Country'' of
        Inl e \<Rightarrow> Inl e
      | Inr col \<Rightarrow>
          let country_counts = value_counts col
          in Inr \<lparr>header = columns df @ [''NoOfArticles''],
                  csv_rows = zip (rows df) (map (map_of country_counts) col)\<rparr>)"

text \<open>
  The state a run works on: the table, the csv file (\<open>None\<close> while it does not exist)
  and what has been printed.
\<close>

record world =
  db :: "db_row list"
  csv :: "csv_file option"
  out :: "msg list"

definition db_name :: string where
  "db_name = ''news.db''"

definition csv_name :: string where
  "csv_name = ''news_data.csv''"

text \<open>
  \<open>run\<close>: the state it leaves and the exception it ends with, if any. The last two
  steps, the export and the store with its report, are written apart.
\<close>

definition export_step :: "world \<Rightarrow> dataframe \<Rightarrow> world \<times> py_exn option" where
  "export_step w df_cleaned =
     (case save_to_csv df_cleaned of
        Inl e \<Rightarrow> (w, Some e)
      | Inr file \<Rightarrow> (w\<lparr>csv := Some file, out := out w @ [Saved csv_name, JobFinished]\<rparr>, None))"

definition store_step :: "world \<Rightarrow> dataframe \<Rightarrow> world \<times> py_exn option" where
  "store_step w df_cleaned =
     (case store_in_db (db w) (rows df_cleaned) of
        Inl e \<Rightarrow> (w, Some e)
      | Inr table \<Rightarrow>
          export_step
            (w\<lparr>db := table, out := out w @ [Stored (length (rows df_cleaned)) db_name]\<rparr>)
            df_cleaned)"

definition run :: "('tz, 'm) env_scheme \<Rightarrow> feed list \<Rightarrow> world \<Rightarrow> world \<times> py_exn option" where
  "run E rss_feeds w0 =
     (case scrape_all_feeds E rss_feeds of
        (printed, r) \<Rightarrow>
          (let w = w0\<lparr>out := out w0 @ JobStarted # printed\<rparr>
           in (case r of
                 Inl e \<Rightarrow> (w, Some e)
               | Inr entries \<Rightarrow>
                   (case remove_duplicates entries of
                      Inl e \<Rightarrow> (w, Some e)
                    | Inr df_cleaned \<Rightarrow> store_step w df_cleaned))))"

section \<open>The cleaning step as the specification words it\<close>

text \<open>
  The leading token is the longest run of letters at the start, in whatever language the
  weekday is written; it is stripped, with the comma and the whitespace after it, when it
  has 2 to 9 letters and a comma follows.
\<close>

definition spec_strip_weekday :: "string \<Rightarrow> string" where
  "spec_strip_weekday s =
     (let token = takeWhile isalpha s; rest = dropWhile isalpha s
      in if 2 \<le> length token \<and> length token \<le> 9 \<and> rest \<noteq> [] \<and> hd rest = CHR '',''
         then dropWhile isspace (tl rest) else s)"

text \<open>
  The string cut into its maximal runs of word characters and of other characters; a
  standalone token is a whole run. The runs that are timezone abbreviations are dropped.
\<close>

fun word_runs :: "string \<Rightarrow> string list" where
  "word_runs [] = []"
| "word_runs (c # cs) =
     (case word_runs cs of
        [] \<Rightarrow> [[c]]
      | r # rs \<Rightarrow> if isword c = isword (hd r) then (c # r) # rs else [c] # r # rs)"

definition spec_remove_tz :: "string \<Rightarrow> string" where
  "spec_remove_tz s = concat (filter (\<lambda>t. t \<notin> set tz_abbrevs) (word_runs s))"

text \<open>Every maximal run of whitespace becomes one space.\<close>

function spec_collapse :: "string \<Rightarrow> string" where
  "spec_collapse [] = []"
| "spec_collapse (c # cs) =
     (if isspace c then CHR '' '' # spec_collapse (dropWhile isspace cs)
      else c # spec_collapse cs)"
  by pat_completeness auto
termination
  by (relation "measure length") (auto simp: le_imp_less_Suc length_dropWhile_le)

text \<open>Trimming: the whitespace before the first and after the last other character goes.\<close>

fun trim_right :: "string \<Rightarrow> string" where
  "trim_right [] = []"
| "trim_right (c # cs) = (if list_all isspace (c # cs) then [] else c # trim_right cs)"

definition spec_trim :: "string \<Rightarrow> string" where
  "spec_trim s = trim_right (dropWhile isspace s)"

definition spec_clean :: "string \<Rightarrow> string" where
  "spec_clean s = spec_trim (spec_collapse (spec_remove_tz (spec_strip_weekday s)))"

section \<open>An environment for concrete runs\<close>

text \<open>
  Zones are offsets from UTC in seconds. Days are counted as \<open>date.toordinal\<close> does:
  2022-01-01 is day 738156, 2023-01-15 is day 738535, 2023-12-25 is day 738879,
  2024-01-01 is day 738886,
  2024-05-10 is day 739016, 2024-06-01 is day 739038, 2024-06-03 is day 739040 and
  2024-06-05 is day 739042. The clock stands at 2024-06-03 20:00:00 UTC, which is also
  the local time.
\<close>

definition at_day :: "int \<Rightarrow> int \<Rightarrow> int" where
  "at_day ordinal seconds = ordinal * usec_per_day + seconds * 1000000"

definition example_item :: "string \<Rightarrow> string \<Rightarrow> string \<Rightarrow> item" where
  "example_item title link pub =
     (\<lambda>name. if name = ''title'' then Some \<lparr>attrs = [], tag_text = title\<rparr>
             else if name = ''link'' then Some \<lparr>attrs = [], tag_text = link\<rparr>
             else if name = ''pubDate'' then Some \<lparr>attrs = [], tag_text = pub\<rparr>
             else None)"

definition example_item_with_summary :: "string \<Rightarrow> string \<Rightarrow> string \<Rightarrow> string \<Rightarrow> item" where
  "example_item_with_summary title link pub summary =
     (\<lambda>name. if name = ''title'' then Some \<lparr>attrs = [], tag_text = title\<rparr>
             else if name = ''link'' then Some \<lparr>attrs = [], tag_text = link\<rparr>
             else if name = ''pubDate'' then Some \<lparr>attrs = [], tag_text = pub\<rparr>
             else if name = ''description'' then Some \<lparr>attrs = [], tag_text = summary\<rparr>
             else None)"


text \<open>
  The feed at \<open>http://bad\<close> has three items with a title and a link; the summary of the
  second is markup that the summary parser rejects.
\<close>

definition bad_feed_items :: "item list" where
  "bad_feed_items =
     [example_item_with_summary ''A'' ''http://a'' [] ''first'',
      example_item_with_summary ''B'' ''http://b'' [] ''<![x]>'',
      example_item_with_summary ''C'' ''http://c'' [] ''third'']"

definition example_env :: "int env" where
  "example_env =
     \<lparr>dateutil_parse =
        (\<lambda>s. if s = ''2022-01-01'' then Inr \<lparr>wall = at_day 738156 0, tzinfo = None\<rparr>
             else if s = ''03 Jun 2024 14:00:00 GMT''
               then Inr \<lparr>wall = at_day 739040 50400, tzinfo = Some 0\<rparr>
             else if s = ''2024-06-05T09:00:00+02:00''
               then Inr \<lparr>wall = at_day 739042 32400, tzinfo = Some 7200\<rparr>
             else if s = ''2024-05-10'' then Inr \<lparr>wall = at_day 739016 0, tzinfo = None\<rparr>
             else if s = ''2023-12-25'' then Inr \<lparr>wall = at_day 738879 0, tzinfo = None\<rparr>
             else if s = ''2023-01-15'' then Inr \<lparr>wall = at_day 738535 0, tzinfo = None\<rparr>
             else Inl ValueError),
      strptime =
        (\<lambda>s fmt. if s = ''20240601'' \<and> fmt = ''%Y%m%d''
                 then Inr \<lparr>wall = at_day 739038 0, tzinfo = None\<rparr>
                 else if s = ''2024-01-01 10:00:00'' \<and> fmt = ''%Y-%m-%d %H:%M:%S''
                 then Inr \<lparr>wall = at_day 738886 36000, tzinfo = None\<rparr>
                 else Inl ValueError),
      datetime_now =
        (\<lambda>tz. case tz of None \<Rightarrow> at_day 739040 72000
                | Some offset \<Rightarrow> at_day 739040 (72000 + offset)),
      probe =
        (\<lambda>u. if u = ''http://up'' \<or> u = ''http://bad'' then Inr 200
             else if u = ''http://down'' then Inr 503
             else Inl RequestException),
      fetch_soup =
        (\<lambda>u. if u = ''http://up''
             then Inr (\<lambda>name. if name = ''item''
                              then [example_item ''X'' ''http://a'' ''2022-01-01'',
                                    example_item [] ''http://a'' [],
                                    example_item ''X'' ''http://a'' [],
                                    example_item ''Y'' ''http://b'' ''20240601'']
                              else [])
             else if u = ''http://bad''
             then Inr (\<lambda>name. if name = ''item'' then bad_feed_items else [])
             else Inl OtherError),
      soup_get_text = (\<lambda>s. if s = ''<![x]>'' then Inl OtherError else Inr s),
      html_unescape = (\<lambda>s. s),
      detect = (\<lambda>s. Inr ''en'')\<rparr>"

text \<open>
  A raw date string that starts with the Spanish and Portuguese abbreviation of
  Saturday, followed by \<open>, 01 Jun 2024 10:00:00\<close>: the second letter of the
  abbreviation is an a with an acute accent, the code point 225.
\<close>

definition sabado :: string where
  "sabado = CHR ''S'' # CHR 0xE1 # ''b, 01 Jun 2024 10:00:00''"

text \<open>A batch in which the first and the third entry share their title and link.\<close>

definition example_batch :: "article list" where
  "example_batch =
     [\<lparr>Title = ''X'', Summary = ''one'', Published = [], Link = ''http://a'', Source = ''BBC'',
       Country = ''UK'', Language = ''en'', Duration = ''Unknown''\<rparr>,
      \<lparr>Title = ''Y'', Summary = ''two'', Published = [], Link = ''http://b'', Source = ''BBC'',
       Country = ''UK'', Language = ''en'', Duration = ''Unknown''\<rparr>,
      \<lparr>Title = ''X'', Summary = ''three'', Published = [], Link = ''http://a'', Source = ''CNN'',
       Country = ''US'', Language = ''en'', Duration = ''Unknown''\<rparr>,
      \<lparr>Title = ''Z'', Summary = ''four'', Published = [], Link = ''http://c'', Source = ''CNN'',
       Country = ''US'', Language = ''en'', Duration = ''Unknown''\<rparr>]"

section \<open>The cleaning step and its specification\<close>

subsection \<open>Whitespace\<close>

lemma isspace_space [simp]: "isspace CHR '' ''"
  by (simp add: isspace_def)

lemma rev_dropWhile_rev_Cons:
  "rev (dropWhile P (rev (x # xs))) =
     (if P x \<and> rev (dropWhile P (rev xs)) = [] then [] else x # rev (dropWhile P (rev xs)))"
  by (auto simp: dropWhile_append dropWhile_eq_Nil_conv)

lemma rev_dropWhile_rev_Nil: "rev (dropWhile P (rev xs)) = [] \<longleftrightarrow> list_all P xs"
  by (auto simp: dropWhile_eq_Nil_conv list_all_iff)

lemma trim_right_rev: "trim_right s = rev (dropWhile isspace (rev s))"
proof (induction s)
  case Nil
  show ?case by simp
next
  case (Cons c cs)
  have "rev (dropWhile isspace (rev (c # cs))) =
      (if isspace c \<and> list_all isspace cs then [] else c # rev (dropWhile isspace (rev cs)))"
    by (simp only: rev_dropWhile_rev_Cons rev_dropWhile_rev_Nil)
  with Cons show ?case by simp
qed

lemma py_strip_spec_trim: "py_strip s = spec_trim s"
  by (simp add: py_strip_def spec_trim_def trim_right_rev)

lemma dropWhile_head: "dropWhile P s = [] \<or> \<not> P (hd (dropWhile P s))"
  by (metis dropWhile_eq_Nil_conv hd_dropWhile)

lemma spec_trim_idem: "spec_trim (spec_trim s) = spec_trim s"
proof -
  define y where "y = dropWhile isspace s"
  have "y = [] \<or> \<not> isspace (hd y)"
    unfolding y_def by (rule dropWhile_head)
  then have "dropWhile isspace (rev (dropWhile isspace (rev y))) = rev (dropWhile isspace (rev y))"
  proof (cases y)
    case Nil
    then show ?thesis by simp
  next
    case (Cons a as)
    assume "y = [] \<or> \<not> isspace (hd y)"
    with Cons show ?thesis
      by (auto simp: rev_dropWhile_rev_Cons simp del: rev.simps)
  qed
  then show ?thesis
    by (simp add: spec_trim_def trim_right_rev y_def)
qed

lemma split_scan_acc:
  "split_scan w s =
     (if s \<noteq> [] \<and> \<not> isspace (hd s)
      then (case split_scan [] s of [] \<Rightarrow> [] | x # xs \<Rightarrow> (w @ x) # xs)
      else if w = [] then split_scan [] s else w # split_scan [] s)"
proof (induction s arbitrary: w)
  case Nil
  then show ?case by simp
next
  case (Cons c cs)
  show ?case
  proof (cases "isspace c")
    case True
    then show ?thesis by simp
  next
    case False
    have a: "split_scan (w @ [c]) cs =
      (if cs \<noteq> [] \<and> \<not> isspace (hd cs)
       then (case split_scan [] cs of [] \<Rightarrow> [] | x # xs \<Rightarrow> ((w @ [c]) @ x) # xs)
       else (w @ [c]) # split_scan [] cs)"
      using Cons.IH [of "w @ [c]"] by simp
    have b: "split_scan [c] cs =
      (if cs \<noteq> [] \<and> \<not> isspace (hd cs)
       then (case split_scan [] cs of [] \<Rightarrow> [] | x # xs \<Rightarrow> ([c] @ x) # xs)
       else [c] # split_scan [] cs)"
      using Cons.IH [of "[c]"] by simp
    from False a b show ?thesis
      by (auto split: list.splits)
  qed
qed

lemma split_scan_nonempty:
  "s \<noteq> [] \<Longrightarrow> \<not> isspace (hd s) \<Longrightarrow> split_scan w s \<noteq> []"
  by (induction s arbitrary: w) (auto simp: split_scan_acc [of "_ @ _"] split: list.splits)

lemma split_scan_no_empty: "[] \<notin> set (split_scan w s)"
  by (induction s arbitrary: w) auto

lemma py_join_Cons: "py_join sep (w # ws) = (if ws = [] then w else w @ sep @ py_join sep ws)"
  by (cases ws) auto

lemma py_join_eq_Nil: "[] \<notin> set ws \<Longrightarrow> py_join sep ws = [] \<longleftrightarrow> ws = []"
  by (cases ws) (auto simp: py_join_Cons)

lemma join_split_eq_Nil: "py_join '' '' (py_split s) = [] \<longleftrightarrow> py_split s = []"
  by (simp add: py_split_def py_join_eq_Nil split_scan_no_empty)

lemma join_split_Nil: "py_join '' '' (py_split []) = []"
  by (simp add: py_split_def)

lemma join_split_space: "isspace c \<Longrightarrow> py_join '' '' (py_split (c # cs)) = py_join '' '' (py_split cs)"
  by (simp add: py_split_def)

lemma join_split_word:
  assumes c: "\<not> isspace c"
  shows "py_join '' '' (py_split (c # cs)) =
     c # (if cs \<noteq> [] \<and> \<not> isspace (hd cs) then py_join '' '' (py_split cs)
          else if py_join '' '' (py_split cs) = [] then []
          else CHR '' '' # py_join '' '' (py_split cs))"
proof -
  have s: "split_scan [c] cs =
      (if cs \<noteq> [] \<and> \<not> isspace (hd cs)
       then (case split_scan [] cs of [] \<Rightarrow> [] | x # xs \<Rightarrow> ([c] @ x) # xs)
       else [c] # split_scan [] cs)"
    using split_scan_acc [of "[c]" cs] by simp
  show ?thesis
  proof (cases "cs \<noteq> [] \<and> \<not> isspace (hd cs)")
    case True
    then obtain x xs where "split_scan [] cs = x # xs"
      using split_scan_nonempty [of cs "[]"] by (cases "split_scan [] cs") auto
    with True c s show ?thesis
      by (simp add: py_split_def py_join_Cons)
  next
    case False
    with c s show ?thesis
      using join_split_eq_Nil [of cs]
      by (auto simp: py_split_def py_join_Cons)
  qed
qed

lemma join_split_dropWhile:
  "py_join '' '' (py_split (dropWhile isspace s)) = py_join '' '' (py_split s)"
  by (induction s) (auto simp: join_split_space)

lemma collapse_no_lead:
  "s = [] \<or> \<not> isspace (hd s) \<Longrightarrow> dropWhile isspace (spec_collapse s) = spec_collapse s"
  by (cases s) auto

lemma collapse_dropWhile_no_lead:
  "dropWhile isspace (spec_collapse (dropWhile isspace s)) = spec_collapse (dropWhile isspace s)"
  by (rule collapse_no_lead) (rule dropWhile_head)

lemma join_split_spec: "py_join '' '' (py_split s) = spec_trim (spec_collapse s)"
proof (induction s rule: spec_collapse.induct)
  case 1
  then show ?case by (simp add: join_split_Nil spec_trim_def)
next
  case (2 c cs)
  show ?case
  proof (cases "isspace c")
    case True
    then have "py_join '' '' (py_split (c # cs)) = py_join '' '' (py_split (dropWhile isspace cs))"
      by (simp add: join_split_space join_split_dropWhile)
    also have "\<dots> = spec_trim (spec_collapse (dropWhile isspace cs))"
      using 2 True by simp
    also have "\<dots> = spec_trim (spec_collapse (c # cs))"
      using True by (simp add: spec_trim_def)
    finally show ?thesis .
  next
    case False
    note ih = "2.IH"(2) [OF False]
    have t: "spec_trim (spec_collapse (c # cs)) = c # trim_right (spec_collapse cs)"
      using False
      by (simp add: spec_trim_def trim_right_rev rev_dropWhile_rev_Cons del: rev.simps)
    show ?thesis
    proof (cases cs)
      case Nil
      with False t show ?thesis by (simp add: join_split_word join_split_Nil)
    next
      case (Cons d ds)
      show ?thesis
      proof (cases "isspace d")
        case True
        have "spec_trim (spec_collapse cs) = trim_right (spec_collapse (dropWhile isspace ds))"
          using True Cons by (simp add: spec_trim_def collapse_dropWhile_no_lead)
        moreover have "trim_right (spec_collapse cs) =
           (if trim_right (spec_collapse (dropWhile isspace ds)) = [] then []
            else CHR '' '' # trim_right (spec_collapse (dropWhile isspace ds)))"
          using True Cons
          by (simp add: trim_right_rev rev_dropWhile_rev_Cons del: rev.simps)
        ultimately show ?thesis
          using False True Cons t ih by (simp add: join_split_word)
      next
        case d: False
        then have "spec_trim (spec_collapse cs) = trim_right (spec_collapse cs)"
          using Cons by (simp add: spec_trim_def)
        then show ?thesis
          using False d Cons t ih by (simp add: join_split_word)
      qed
    qed
  qed
qed

subsection \<open>The weekday pattern\<close>

lemma comma_not_letter [simp]: "\<not> ascii_letter CHR '',''"
  by (simp add: ascii_letter_def)

lemma weekday_candidate:
  "(n < length s \<and> list_all ascii_letter (take n s) \<and> s ! n = CHR '','') \<longleftrightarrow>
   (n = length (takeWhile ascii_letter s) \<and> dropWhile ascii_letter s \<noteq> []
      \<and> hd (dropWhile ascii_letter s) = CHR '','')"
  (is "?l \<longleftrightarrow> ?r")
proof
  assume l: ?l
  then have tw: "takeWhile ascii_letter s = take n s"
    by (intro takeWhile_eq_take_P_nth) (auto simp: list_all_length)
  with l have n: "length (takeWhile ascii_letter s) = n" by simp
  have "dropWhile ascii_letter s = drop n s"
    using dropWhile_eq_drop [of ascii_letter s] n by simp
  with l n show ?r
    by (simp add: hd_drop_conv_nth)
next
  assume r: ?r
  have "length (takeWhile ascii_letter s) + length (dropWhile ascii_letter s) = length s"
    by (metis length_append takeWhile_dropWhile_id)
  with r have lt: "n < length s"
    by (cases "dropWhile ascii_letter s") auto
  have d: "dropWhile ascii_letter s = drop n s"
    using dropWhile_eq_drop [of ascii_letter s] r by simp
  have "take n s = takeWhile ascii_letter s"
    using r takeWhile_eq_take [of ascii_letter s] by simp
  then have "list_all ascii_letter (take n s)"
    by (auto simp: list_all_iff dest: set_takeWhileD)
  with r lt d show ?l
    by (auto simp: hd_drop_conv_nth)
qed

lemma sub_weekday_run:
  "sub_weekday s =
     (let token = takeWhile ascii_letter s; rest = dropWhile ascii_letter s
      in if 2 \<le> length token \<and> length token \<le> 9 \<and> rest \<noteq> [] \<and> hd rest = CHR '',''
         then dropWhile isspace (tl rest) else s)"
  (is "_ = ?run")
proof -
  define m where "m = length (takeWhile ascii_letter s)"
  define q where
    "q \<longleftrightarrow> dropWhile ascii_letter s \<noteq> [] \<and> hd (dropWhile ascii_letter s) = CHR '',''"
  have p: "(\<lambda>n. n < length s \<and> list_all ascii_letter (take n s) \<and> s ! n = CHR '','')
             = (\<lambda>n. n = m \<and> q)"
    unfolding m_def q_def using weekday_candidate [of _ s] by blast
  have f: "find (\<lambda>n. n = m \<and> q) [9, 8, 7, 6, 5, 4, 3, 2] =
             (if 2 \<le> m \<and> m \<le> 9 \<and> q then Some m else None)"
    by auto
  have d: "dropWhile ascii_letter s = drop m s"
    unfolding m_def by (rule dropWhile_eq_drop)
  have e: "drop (Suc m + length (takeWhile isspace (drop (Suc m) s))) s
             = dropWhile isspace (tl (drop m s))"
    by (simp add: dropWhile_eq_drop drop_Suc tl_drop add.commute)
  have w: "weekday_match s =
      (if 2 \<le> m \<and> m \<le> 9 \<and> q
       then Some (Suc m + length (takeWhile isspace (drop (Suc m) s))) else None)"
    unfolding weekday_match_def p f by simp
  show ?thesis
  proof (cases "2 \<le> m \<and> m \<le> 9 \<and> q")
    case True
    then have "sub_weekday s = dropWhile isspace (tl (drop m s))"
      unfolding sub_weekday_def w using e by simp
    moreover have "?run = dropWhile isspace (tl (drop m s))"
      using True d unfolding Let_def m_def q_def by simp
    ultimately show ?thesis by simp
  next
    case False
    then have "weekday_match s = None"
      unfolding w by (simp only: if_False)
    then have "sub_weekday s = s"
      unfolding sub_weekday_def by simp
    moreover have "?run = s"
      using False unfolding Let_def m_def q_def by auto
    ultimately show ?thesis by simp
  qed
qed

text \<open>
  The pattern and the specification agree on every string whose leading run of letters is
  made of ASCII letters only.
\<close>

lemma sub_weekday_spec:
  assumes "takeWhile isalpha s = takeWhile ascii_letter s"
  shows "sub_weekday s = spec_strip_weekday s"
proof -
  have "dropWhile isalpha s = dropWhile ascii_letter s"
    using assms dropWhile_eq_drop [of isalpha s] dropWhile_eq_drop [of ascii_letter s] by simp
  with assms show ?thesis
    by (simp add: sub_weekday_run spec_strip_weekday_def)
qed

subsection \<open>The timezone pattern\<close>

lemma tz_abbrevs_word: "a \<in> set tz_abbrevs \<Longrightarrow> a \<noteq> [] \<and> list_all isword a"
  by (auto simp: tz_abbrevs_def isword_def)

lemma word_runs_Cons:
  "word_runs (c # cs) =
     (c # takeWhile (\<lambda>d. isword d = isword c) cs) # word_runs (dropWhile (\<lambda>d. isword d = isword c) cs)"
proof (induction cs arbitrary: c)
  case Nil
  show ?case by simp
next
  case (Cons d ds)
  show ?case
  proof (cases "isword d = isword c")
    case True
    then have "(\<lambda>e. isword e = isword d) = (\<lambda>e. isword e = isword c)" by simp
    with True Cons [of d] show ?thesis by simp
  next
    case False
    with Cons [of d] show ?thesis by auto
  qed
qed

declare word_runs.simps(2) [simp del]

lemma spec_remove_tz_Nil: "spec_remove_tz [] = []"
  by (simp add: spec_remove_tz_def)

lemma spec_remove_tz_nonword:
  assumes "\<not> isword c"
  shows "spec_remove_tz (c # cs) = c # spec_remove_tz cs"
proof -
  have c: "c # t \<notin> set tz_abbrevs" for t
    using tz_abbrevs_word [of "c # t"] assms by auto
  from assms have p: "(\<lambda>d. isword d = isword c) = (\<lambda>d. \<not> isword d)" by auto
  show ?thesis
  proof (cases cs)
    case Nil
    with c show ?thesis
      by (simp add: spec_remove_tz_def word_runs_Cons)
  next
    case (Cons d ds)
    show ?thesis
    proof (cases "isword d")
      case True
      with Cons c p show ?thesis
        by (simp add: spec_remove_tz_def word_runs_Cons [of c])
    next
      case False
      then have q: "(\<lambda>e. isword e = isword d) = (\<lambda>d. \<not> isword d)" by auto
      have d: "d # t \<notin> set tz_abbrevs" for t
        using tz_abbrevs_word [of "d # t"] False by auto
      from False Cons c d p q show ?thesis
        by (simp add: spec_remove_tz_def word_runs_Cons)
    qed
  qed
qed

lemma spec_remove_tz_word:
  assumes "isword c"
  shows "spec_remove_tz (c # cs) =
     (if c # takeWhile isword cs \<in> set tz_abbrevs then [] else c # takeWhile isword cs)
       @ spec_remove_tz (dropWhile isword cs)"
proof -
  from assms have "(\<lambda>d. isword d = isword c) = isword" by auto
  then show ?thesis
    by (simp add: spec_remove_tz_def word_runs_Cons)
qed

lemma tz_match_nonword: "\<not> isword c \<Longrightarrow> tz_match prev (c # cs) = None"
proof -
  assume c: "\<not> isword c"
  have "\<not> (take (length a) (c # cs) = a)" if "a \<in> set tz_abbrevs" for a
    using tz_abbrevs_word [OF that] c by (cases a) auto
  then show ?thesis
    by (auto simp: tz_match_def find_None_iff)
qed

lemma sub_tz_nonword_head:
  "s = [] \<or> \<not> isword (hd s) \<Longrightarrow> sub_tz p s = sub_tz None s"
  by (cases s) (auto simp: tz_match_nonword)

lemma sub_tz_inside_word:
  "isword p \<Longrightarrow> sub_tz (Some p) s = takeWhile isword s @ sub_tz None (dropWhile isword s)"
proof (induction s arbitrary: p)
  case Nil
  show ?case by simp
next
  case (Cons c cs)
  show ?case
  proof (cases "isword c")
    case True
    with Cons.prems have "tz_match (Some p) (c # cs) = None"
      by (simp add: tz_match_def word_boundary_def)
    with True Cons.IH [of c] show ?thesis by simp
  next
    case False
    then show ?thesis
      using sub_tz_nonword_head [of "c # cs" "Some p"] by simp
  qed
qed

lemma find_eq: "find (\<lambda>a. a = w) xs = (if w \<in> set xs then Some w else None)"
  by (induction xs) auto

lemma tz_match_word:
  assumes prev: "case prev of None \<Rightarrow> True | Some p \<Rightarrow> \<not> isword p" and c: "isword c"
  shows "tz_match prev (c # cs) =
     (if c # takeWhile isword cs \<in> set tz_abbrevs then Some (c # takeWhile isword cs) else None)"
proof -
  define s where "s = c # cs"
  define w where "w = c # takeWhile isword cs"
  have w: "w = takeWhile isword s" using c by (simp add: w_def s_def)
  have b: "word_boundary prev s"
    using prev c by (auto simp: word_boundary_def s_def split: option.splits)
  have "(take (length a) s = a \<and> word_boundary (Some (last a)) (drop (length a) s)) \<longleftrightarrow> a = w"
    if a: "a \<in> set tz_abbrevs" for a
  proof
    assume l: "take (length a) s = a \<and> word_boundary (Some (last a)) (drop (length a) s)"
    from tz_abbrevs_word [OF a] have aw: "a \<noteq> []" "list_all isword a" by auto
    then have la: "isword (last a)" by (simp add: list_all_iff)
    from l have s: "s = a @ drop (length a) s" by (metis append_take_drop_id)
    from l la have "drop (length a) s = [] \<or> \<not> isword (hd (drop (length a) s))"
      by (cases "drop (length a) s") (auto simp: word_boundary_def)
    then have "takeWhile isword (a @ drop (length a) s) = a"
      using aw by (cases "drop (length a) s") (auto simp: takeWhile_append list_all_iff)
    with s w show "a = w" by simp
  next
    assume e: "a = w"
    have t: "take (length w) s = w"
      unfolding w by (simp add: takeWhile_eq_take [symmetric])
    have d: "drop (length w) s = dropWhile isword s"
      unfolding w by (simp add: dropWhile_eq_drop [symmetric])
    have "dropWhile isword s = [] \<or> \<not> isword (hd (dropWhile isword s))"
      by (metis dropWhile_eq_Nil_conv hd_dropWhile)
    moreover have "isword (last w)"
      using c last_in_set [of w] by (auto simp: w_def dest: set_takeWhileD)
    ultimately show "take (length a) s = a \<and> word_boundary (Some (last a)) (drop (length a) s)"
      using e t d by (cases "dropWhile isword s") (auto simp: word_boundary_def)
  qed
  then have "find (\<lambda>a. take (length a) s = a \<and> word_boundary (Some (last a)) (drop (length a) s)) tz_abbrevs
      = find (\<lambda>a. a = w) tz_abbrevs"
    by (intro find_cong) auto
  with b show ?thesis
    by (simp add: tz_match_def find_eq s_def [symmetric] w_def [symmetric])
qed


lemma sub_tz_spec_aux:
  "(case prev of None \<Rightarrow> True | Some p \<Rightarrow> \<not> isword p) \<Longrightarrow> sub_tz prev s = spec_remove_tz s"
proof (induction s arbitrary: prev rule: length_induct)
  case (1 s)
  show ?case
  proof (cases s)
    case Nil
    then show ?thesis by (simp add: spec_remove_tz_Nil)
  next
    case (Cons c cs)
    show ?thesis
    proof (cases "isword c")
      case False
      then have "sub_tz prev s = c # sub_tz (Some c) cs"
        using Cons by (simp add: tz_match_nonword)
      also have "sub_tz (Some c) cs = spec_remove_tz cs"
        using "1.IH" Cons False by simp
      finally show ?thesis
        using False Cons by (simp add: spec_remove_tz_nonword)
    next
      case True
      define w where "w = c # takeWhile isword cs"
      define r where "r = dropWhile isword cs"
      have r: "sub_tz None r = spec_remove_tz r"
        using "1.IH" Cons by (simp add: r_def le_imp_less_Suc length_dropWhile_le)
      have m: "tz_match prev s = (if w \<in> set tz_abbrevs then Some w else None)"
        using tz_match_word [OF "1.prems" True, of cs] Cons by (simp add: w_def)
      have sp: "spec_remove_tz s = (if w \<in> set tz_abbrevs then [] else w) @ spec_remove_tz r"
        using spec_remove_tz_word [OF True, of cs] Cons by (simp add: w_def r_def)
      show ?thesis
      proof (cases "w \<in> set tz_abbrevs")
        case in_tz: True
        have "drop (length w) s = r"
          using Cons by (simp add: w_def r_def dropWhile_eq_drop [symmetric])
        then have "sub_tz prev s = sub_tz (Some (last w)) r"
          using m in_tz Cons by simp
        also have "\<dots> = sub_tz None r"
          unfolding r_def by (rule sub_tz_nonword_head) (rule dropWhile_head)
        finally show ?thesis
          using r sp in_tz by simp
      next
        case out: False
        then have "sub_tz prev s = c # sub_tz (Some c) cs"
          using m Cons by simp
        also have "sub_tz (Some c) cs = takeWhile isword cs @ sub_tz None r"
          using sub_tz_inside_word [OF True] by (simp add: r_def)
        finally show ?thesis
          using r sp out by (simp add: w_def)
      qed
    qed
  qed
qed

lemma sub_tz_spec: "sub_tz None s = spec_remove_tz s"
  by (rule sub_tz_spec_aux) simp

section \<open>Claims about the date normalizer\<close>

text \<open>
  On every non-empty raw date string whose leading run of letters is ASCII,
  \<open>clean_date_string\<close> returns what the cleaning steps of the specification give, taken
  in their order; and whenever \<open>clean_date_string\<close> returns the empty string,
  \<open>calculate_duration\<close> returns \<open>Unknown\<close>.
\<close>

lemma clean_date_string_spec_ascii:
  assumes "s \<noteq> []" and "takeWhile isalpha s = takeWhile ascii_letter s"
  shows "clean_date_string s = Some (spec_clean s)"
proof -
  have "clean_date_string s =
      Some (py_strip (py_join '' '' (py_split (sub_tz None (sub_weekday s)))))"
    using assms(1) by (simp add: clean_date_string_def)
  also have "\<dots> = Some (spec_trim (spec_trim (spec_collapse (spec_remove_tz (spec_strip_weekday s)))))"
    by (simp only: py_strip_spec_trim join_split_spec sub_tz_spec sub_weekday_spec [OF assms(2)])
  also have "\<dots> = Some (spec_clean s)"
    by (simp add: spec_trim_idem spec_clean_def)
  finally show ?thesis .
qed

lemma calculate_duration_empty_clean:
  "clean_date_string s = Some [] \<Longrightarrow> calculate_duration L s = Inr ''Unknown''"
  by (simp add: calculate_duration_def)

text \<open>
  C7. On the raw date string \<open>sabado\<close> the cleaning steps of the specification strip the
  leading weekday token, which has three letters and is followed by a comma, and give
  \<open>01 Jun 2024 10:00:00\<close>; \<open>clean_date_string\<close> returns the string with the token still in
  place, because the second letter of the token is outside the class of the pattern.
\<close>

theorem clean_date_string_keeps_accented_weekday:
  "clean_date_string sabado = Some sabado
   \<and> spec_clean sabado = ''01 Jun 2024 10:00:00''
   \<and> length (takeWhile isalpha sabado) = 3
   \<and> hd (dropWhile isalpha sabado) = CHR '',''"
  by code_simp

subsection \<open>The parsing stage\<close>

lemma try_formats_all_fail:
  assumes "\<forall>f \<in> set fmts. strptime L s f = Inl ValueError"
  shows "try_formats L s fmts = (map (Strptime s) fmts, Inr None)"
  using assms by (induction fmts) auto

lemma try_formats_first_success:
  assumes "k < length fmts"
    and "\<forall>j < k. strptime L s (fmts ! j) = Inl ValueError"
    and "strptime L s (fmts ! k) = Inr d"
  shows "try_formats L s fmts = (map (Strptime s) (take (Suc k) fmts), Inr (Some d))"
  using assms
proof (induction fmts arbitrary: k)
  case Nil
  then show ?case by simp
next
  case (Cons f fs)
  show ?case
  proof (cases k)
    case 0
    with Cons.prems show ?thesis by simp
  next
    case (Suc k')
    from Cons.prems(2) Suc have f: "strptime L s f = Inl ValueError" by auto
    from Cons.prems(2) Suc have "\<forall>j < k'. strptime L s (fs ! j) = Inl ValueError" by auto
    with Cons.IH [of k'] Cons.prems Suc
    have "try_formats L s fs = (map (Strptime s) (take (Suc k') fs), Inr (Some d))" by simp
    with f Suc show ?thesis by simp
  qed
qed

lemma try_formats_no_raise:
  assumes "\<And>s fmt e. strptime L s fmt = Inl e \<Longrightarrow> e = ValueError"
  shows "\<exists>r. snd (try_formats L s fmts) = Inr r"
proof (induction fmts)
  case Nil
  show ?case by simp
next
  case (Cons f fs)
  show ?case
  proof (cases "strptime L s f")
    case (Inl e)
    with assms have "strptime L s f = Inl ValueError" by blast
    with Cons show ?thesis by (auto split: prod.splits)
  next
    case (Inr d)
    then show ?thesis by simp
  qed
qed

lemma parse_date_no_raise:
  assumes "\<And>s fmt e. strptime L s fmt = Inl e \<Longrightarrow> e = ValueError"
  shows "\<exists>r. snd (parse_date L c) = Inr r"
proof -
  have "\<exists>r. snd (try_formats L c date_formats) = Inr r"
    by (rule try_formats_no_raise) (rule assms)
  then show ?thesis
    by (auto simp: parse_date_def split: sum.splits prod.splits)
qed

lemma bucket_label: "bucket d \<in> set labels"
  by (simp add: bucket_def labels_def)

lemma calculate_duration_parsed:
  assumes "clean_date_string s = Some c" and "c \<noteq> []"
    and "snd (parse_date L c) = Inr (Some pub)"
  shows "calculate_duration L s =
     Inr (bucket ((datetime_now L (tzinfo pub) - wall pub) div usec_per_day))"
proof -
  from assms(1) have "s \<noteq> []"
    by (auto simp: clean_date_string_def split: if_splits)
  with assms show ?thesis
    by (cases "tzinfo pub") (simp_all add: calculate_duration_def timedelta_days_def)
qed

lemma calculate_duration_label:
  assumes "\<And>s fmt e. strptime L s fmt = Inl e \<Longrightarrow> e = ValueError"
  shows "\<exists>l \<in> set labels. calculate_duration L published_date = Inr l"
proof -
  have u: "''Unknown'' \<in> set labels"
    by (simp add: labels_def)
  show ?thesis
  proof (cases "published_date = []")
    case True
    with u show ?thesis by (simp add: calculate_duration_def)
  next
    case False
    then obtain c where c: "clean_date_string published_date = Some c"
      by (simp add: clean_date_string_def)
    show ?thesis
    proof (cases "c = []")
      case True
      with False c u show ?thesis by (simp add: calculate_duration_def)
    next
      case nonempty: False
      have "\<exists>r. snd (parse_date L c) = Inr r"
        by (rule parse_date_no_raise) (rule assms)
      then obtain r where r: "snd (parse_date L c) = Inr r" by blast
      show ?thesis
      proof (cases r)
        case None
        with False c nonempty r u show ?thesis by (simp add: calculate_duration_def)
      next
        case (Some pub)
        with r have "snd (parse_date L c) = Inr (Some pub)" by simp
        from calculate_duration_parsed [OF c nonempty this] bucket_label
        show ?thesis by simp
      qed
    qed
  qed
qed

text \<open>
  C1. Provided \<open>datetime.strptime\<close> fails with \<open>ValueError\<close> only, as it does on string
  arguments, \<open>calculate_duration\<close> returns for every string, whatever \<open>dateutil\<close> and the
  clock do, and what it returns is one of the seven labels; for the empty string it is
  \<open>Unknown\<close>.
\<close>

theorem calculate_duration_total:
  assumes "\<And>s fmt e. strptime L s fmt = Inl e \<Longrightarrow> e = ValueError"
  shows "(\<exists>l \<in> set labels. calculate_duration L published_date = Inr l)
         \<and> labels = [''Today'', ''This Week'', ''This Month'', ''1 Year Ago'', ''2 Years Ago'',
                      ''Older'', ''Unknown'']
         \<and> calculate_duration L [] = Inr ''Unknown''"
proof -
  have "\<exists>l \<in> set labels. calculate_duration L published_date = Inr l"
    by (rule calculate_duration_label) (rule assms)
  then show ?thesis
    by (simp add: calculate_duration_def labels_def)
qed

theorem calculate_duration_total_witness:
  "calculate_duration example_env ''no date at all'' = Inr ''Unknown''
   \<and> calculate_duration example_env ''2022-01-01'' \<noteq> Inr ''Unknown''
   \<and> calculate_duration example_env [] = Inr ''Unknown''"
proof -
  have h: "strptime example_env s fmt = Inl e \<Longrightarrow> e = ValueError" for s fmt e
    by (simp add: example_env_def split: if_splits)
  have t: "(\<exists>l \<in> set labels. calculate_duration example_env published_date = Inr l)
        \<and> labels = [''Today'', ''This Week'', ''This Month'', ''1 Year Ago'', ''2 Years Ago'',
                     ''Older'', ''Unknown'']
        \<and> calculate_duration example_env [] = Inr ''Unknown''" for published_date
    by (rule calculate_duration_total) (rule h)
  have a: "calculate_duration example_env ''no date at all'' = Inr ''Unknown''"
    by code_simp
  have b: "calculate_duration example_env ''2022-01-01'' \<noteq> Inr ''Unknown''"
    by code_simp
  from t [of "''no date at all''"] a b show ?thesis by simp
qed

text \<open>
  C9. Parsing a cleaned date string calls \<open>dateutil\<close> first and, when that returns, makes
  no other call. When it fails, whatever the exception, the eleven patterns are tried in
  the order of the list: if the pattern at position \<open>k\<close> is the first that does not fail,
  exactly the patterns up to it have been tried and its result is the parsed date; if
  all fail, all eleven have been tried and there is no parsed date.
\<close>

theorem parse_date_order:
  "date_formats =
     [''%a, %d %b %Y %H:%M:%S %z'', ''%a, %d %b %Y %H:%M:%S %Z'', ''%Y-%m-%dT%H:%M:%S%z'',
      ''%Y-%m-%d %H:%M:%S'', ''%d %b %Y %H:%M:%S'', ''%a, %d %b %Y %H:%M:%S'', ''%Y-%m-%d'',
      ''%b %d, %Y %H:%M:%S'', ''%d-%m-%Y %H:%M:%S'', ''%m/%d/%Y %H:%M:%S'', ''%Y%m%d'']
   \<and> (dateutil_parse L c = Inr d \<longrightarrow> parse_date L c = ([Dateutil c], Inr (Some d)))
   \<and> (dateutil_parse L c = Inl e \<and> k < length date_formats
        \<and> (\<forall>j < k. strptime L c (date_formats ! j) = Inl ValueError)
        \<and> strptime L c (date_formats ! k) = Inr d
      \<longrightarrow> parse_date L c =
            (Dateutil c # map (Strptime c) (take (Suc k) date_formats), Inr (Some d)))
   \<and> (dateutil_parse L c = Inl e
        \<and> (\<forall>f \<in> set date_formats. strptime L c f = Inl ValueError)
      \<longrightarrow> parse_date L c = (Dateutil c # map (Strptime c) date_formats, Inr None))"
proof (intro conjI impI)
  show "date_formats =
     [''%a, %d %b %Y %H:%M:%S %z'', ''%a, %d %b %Y %H:%M:%S %Z'', ''%Y-%m-%dT%H:%M:%S%z'',
      ''%Y-%m-%d %H:%M:%S'', ''%d %b %Y %H:%M:%S'', ''%a, %d %b %Y %H:%M:%S'', ''%Y-%m-%d'',
      ''%b %d, %Y %H:%M:%S'', ''%d-%m-%Y %H:%M:%S'', ''%m/%d/%Y %H:%M:%S'', ''%Y%m%d'']"
    by (simp add: date_formats_def)
next
  assume "dateutil_parse L c = Inr d"
  then show "parse_date L c = ([Dateutil c], Inr (Some d))"
    by (simp add: parse_date_def)
next
  assume a: "dateutil_parse L c = Inl e \<and> k < length date_formats
        \<and> (\<forall>j < k. strptime L c (date_formats ! j) = Inl ValueError)
        \<and> strptime L c (date_formats ! k) = Inr d"
  then have "try_formats L c date_formats =
      (map (Strptime c) (take (Suc k) date_formats), Inr (Some d))"
    by (intro try_formats_first_success) simp_all
  with a show "parse_date L c =
      (Dateutil c # map (Strptime c) (take (Suc k) date_formats), Inr (Some d))"
    by (simp add: parse_date_def)
next
  assume a: "dateutil_parse L c = Inl e
        \<and> (\<forall>f \<in> set date_formats. strptime L c f = Inl ValueError)"
  then have "try_formats L c date_formats = (map (Strptime c) date_formats, Inr None)"
    by (intro try_formats_all_fail) simp
  with a show "parse_date L c = (Dateutil c # map (Strptime c) date_formats, Inr None)"
    by (simp add: parse_date_def)
qed

theorem parse_date_order_witness:
  "parse_date example_env ''2022-01-01'' =
     ([Dateutil ''2022-01-01''], Inr (Some \<lparr>wall = at_day 738156 0, tzinfo = None\<rparr>))
   \<and> parse_date example_env ''2024-01-01 10:00:00'' =
       ([Dateutil ''2024-01-01 10:00:00'',
         Strptime ''2024-01-01 10:00:00'' ''%a, %d %b %Y %H:%M:%S %z'',
         Strptime ''2024-01-01 10:00:00'' ''%a, %d %b %Y %H:%M:%S %Z'',
         Strptime ''2024-01-01 10:00:00'' ''%Y-%m-%dT%H:%M:%S%z'',
         Strptime ''2024-01-01 10:00:00'' ''%Y-%m-%d %H:%M:%S''],
        Inr (Some \<lparr>wall = at_day 738886 36000, tzinfo = None\<rparr>))
   \<and> parse_date example_env ''no date at all'' =
       (Dateutil ''no date at all'' # map (Strptime ''no date at all'') date_formats, Inr None)"
proof -
  have 1: "dateutil_parse example_env ''2022-01-01'' =
      Inr \<lparr>wall = at_day 738156 0, tzinfo = None\<rparr>"
    by (simp add: example_env_def)
  have 2: "dateutil_parse example_env ''2024-01-01 10:00:00'' = Inl ValueError
      \<and> 3 < length date_formats
      \<and> (\<forall>j < 3. strptime example_env ''2024-01-01 10:00:00'' (date_formats ! j) = Inl ValueError)
      \<and> strptime example_env ''2024-01-01 10:00:00'' (date_formats ! 3) =
          Inr \<lparr>wall = at_day 738886 36000, tzinfo = None\<rparr>"
    by (simp add: example_env_def date_formats_def less_Suc_eq numeral_3_eq_3)
  have 3: "dateutil_parse example_env ''no date at all'' = Inl ValueError
      \<and> (\<forall>f \<in> set date_formats. strptime example_env ''no date at all'' f = Inl ValueError)"
    by (simp add: example_env_def)
  have t: "take (Suc 3) date_formats =
      [''%a, %d %b %Y %H:%M:%S %z'', ''%a, %d %b %Y %H:%M:%S %Z'', ''%Y-%m-%dT%H:%M:%S%z'',
       ''%Y-%m-%d %H:%M:%S'']"
    by (simp add: date_formats_def)
  from parse_date_order [of example_env "''2022-01-01''" "\<lparr>wall = at_day 738156 0, tzinfo = None\<rparr>"] 1
  have a: "parse_date example_env ''2022-01-01'' =
     ([Dateutil ''2022-01-01''], Inr (Some \<lparr>wall = at_day 738156 0, tzinfo = None\<rparr>))"
    by blast
  from parse_date_order [of example_env "''2024-01-01 10:00:00''"
        "\<lparr>wall = at_day 738886 36000, tzinfo = None\<rparr>" ValueError 3] 2
  have "parse_date example_env ''2024-01-01 10:00:00'' =
      (Dateutil ''2024-01-01 10:00:00'' # map (Strptime ''2024-01-01 10:00:00'') (take (Suc 3) date_formats),
       Inr (Some \<lparr>wall = at_day 738886 36000, tzinfo = None\<rparr>))"
    by blast
  then have b: "parse_date example_env ''2024-01-01 10:00:00'' =
       ([Dateutil ''2024-01-01 10:00:00'',
         Strptime ''2024-01-01 10:00:00'' ''%a, %d %b %Y %H:%M:%S %z'',
         Strptime ''2024-01-01 10:00:00'' ''%a, %d %b %Y %H:%M:%S %Z'',
         Strptime ''2024-01-01 10:00:00'' ''%Y-%m-%dT%H:%M:%S%z'',
         Strptime ''2024-01-01 10:00:00'' ''%Y-%m-%d %H:%M:%S''],
        Inr (Some \<lparr>wall = at_day 738886 36000, tzinfo = None\<rparr>))"
    by (simp only: t list.map)
  from parse_date_order [of example_env "''no date at all''" _ ValueError] 3
  have c: "parse_date example_env ''no date at all'' =
       (Dateutil ''no date at all'' # map (Strptime ''no date at all'') date_formats, Inr None)"
    by blast
  from a b c show ?thesis by blast
qed

text \<open>
  C3. When the cleaned form of a raw date string parses to a timestamp \<open>pub\<close>, the result
  is decided by \<open>d\<close>, the floor in days of the clock reading minus the reading of \<open>pub\<close>,
  where the clock is read in the zone of \<open>pub\<close>, or locally when \<open>pub\<close> has none:
  0 gives Today, 1 to 7 This Week, 8 to 30 This Month, 31 to 365 1 Year Ago, 366 to 730
  2 Years Ago, and more than 730 Older.
\<close>

theorem bucket_by_elapsed_days:
  assumes "clean_date_string s = Some c" and "c \<noteq> []"
    and "snd (parse_date L c) = Inr (Some pub)"
    and "d = (datetime_now L (tzinfo pub) - wall pub) div 86400000000"
  shows "\<exists>r. calculate_duration L s = Inr r
           \<and> (d = 0 \<longrightarrow> r = ''Today'')
           \<and> (1 \<le> d \<and> d \<le> 7 \<longrightarrow> r = ''This Week'')
           \<and> (8 \<le> d \<and> d \<le> 30 \<longrightarrow> r = ''This Month'')
           \<and> (31 \<le> d \<and> d \<le> 365 \<longrightarrow> r = ''1 Year Ago'')
           \<and> (366 \<le> d \<and> d \<le> 730 \<longrightarrow> r = ''2 Years Ago'')
           \<and> (730 < d \<longrightarrow> r = ''Older'')"
proof -
  have "calculate_duration L s = Inr (bucket d)"
    using calculate_duration_parsed [OF assms(1-3)] assms(4) by (simp add: usec_per_day_def)
  then show ?thesis
    by (auto simp: bucket_def)
qed

lemma example_clean:
  "clean_date_string ''2022-01-01'' = Some ''2022-01-01''"
  "clean_date_string ''Mon, 03 Jun 2024 14:00:00 GMT'' = Some ''03 Jun 2024 14:00:00 GMT''"
  "clean_date_string ''20240601'' = Some ''20240601''"
  "clean_date_string ''2024-05-10'' = Some ''2024-05-10''"
  "clean_date_string ''2023-12-25'' = Some ''2023-12-25''"
  "clean_date_string ''2023-01-15'' = Some ''2023-01-15''"
  "clean_date_string ''2024-06-05T09:00:00+02:00'' = Some ''2024-06-05T09:00:00+02:00''"
  by code_simp+

lemma example_parse:
  "snd (parse_date example_env ''2022-01-01'') = Inr (Some \<lparr>wall = at_day 738156 0, tzinfo = None\<rparr>)"
  "snd (parse_date example_env ''03 Jun 2024 14:00:00 GMT'') =
     Inr (Some \<lparr>wall = at_day 739040 50400, tzinfo = Some 0\<rparr>)"
  "snd (parse_date example_env ''20240601'') = Inr (Some \<lparr>wall = at_day 739038 0, tzinfo = None\<rparr>)"
  "snd (parse_date example_env ''2024-05-10'') = Inr (Some \<lparr>wall = at_day 739016 0, tzinfo = None\<rparr>)"
  "snd (parse_date example_env ''2023-12-25'') = Inr (Some \<lparr>wall = at_day 738879 0, tzinfo = None\<rparr>)"
  "snd (parse_date example_env ''2023-01-15'') = Inr (Some \<lparr>wall = at_day 738535 0, tzinfo = None\<rparr>)"
  "snd (parse_date example_env ''2024-06-05T09:00:00+02:00'') =
     Inr (Some \<lparr>wall = at_day 739042 32400, tzinfo = Some 7200\<rparr>)"
  by (simp_all add: parse_date_def example_env_def date_formats_def)

lemma example_now:
  "datetime_now example_env None = at_day 739040 72000"
  "datetime_now example_env (Some 0) = at_day 739040 72000"
  "datetime_now example_env (Some 7200) = at_day 739040 79200"
  by (simp_all add: example_env_def)

theorem bucket_by_elapsed_days_witness:
  "calculate_duration example_env ''Mon, 03 Jun 2024 14:00:00 GMT'' = Inr ''Today''
   \<and> calculate_duration example_env ''20240601'' = Inr ''This Week''
   \<and> calculate_duration example_env ''2024-05-10'' = Inr ''This Month''
   \<and> calculate_duration example_env ''2023-12-25'' = Inr ''1 Year Ago''
   \<and> calculate_duration example_env ''2023-01-15'' = Inr ''2 Years Ago''
   \<and> calculate_duration example_env ''2022-01-01'' = Inr ''Older''
   \<and> (at_day 739040 72000 - at_day 738156 0) div 86400000000 = 884"
proof -
  have d: "(at_day 739040 72000 - at_day 739040 50400) div 86400000000 = 0"
      "(at_day 739040 72000 - at_day 739038 0) div 86400000000 = 2"
      "(at_day 739040 72000 - at_day 739016 0) div 86400000000 = 24"
      "(at_day 739040 72000 - at_day 738879 0) div 86400000000 = 161"
      "(at_day 739040 72000 - at_day 738535 0) div 86400000000 = 505"
      "(at_day 739040 72000 - at_day 738156 0) div 86400000000 = 884"
    by (simp_all add: at_day_def usec_per_day_def)
  have n: "''2022-01-01'' \<noteq> []" "''03 Jun 2024 14:00:00 GMT'' \<noteq> []" "''20240601'' \<noteq> []"
      "''2024-05-10'' \<noteq> []" "''2023-12-25'' \<noteq> []" "''2023-01-15'' \<noteq> []"
    by simp_all
  have 1: "calculate_duration example_env ''Mon, 03 Jun 2024 14:00:00 GMT'' = Inr ''Today''"
    using bucket_by_elapsed_days [OF example_clean(2) n(2) example_parse(2), of 0] d(1)
    by (simp add: example_now)
  have 2: "calculate_duration example_env ''20240601'' = Inr ''This Week''"
    using bucket_by_elapsed_days [OF example_clean(3) n(3) example_parse(3), of 2] d(2)
    by (simp add: example_now)
  have 3: "calculate_duration example_env ''2024-05-10'' = Inr ''This Month''"
    using bucket_by_elapsed_days [OF example_clean(4) n(4) example_parse(4), of 24] d(3)
    by (simp add: example_now)
  have 4: "calculate_duration example_env ''2023-12-25'' = Inr ''1 Year Ago''"
    using bucket_by_elapsed_days [OF example_clean(5) n(5) example_parse(5), of 161] d(4)
    by (simp add: example_now)
  have 5: "calculate_duration example_env ''2023-01-15'' = Inr ''2 Years Ago''"
    using bucket_by_elapsed_days [OF example_clean(6) n(6) example_parse(6), of 505] d(5)
    by (simp add: example_now)
  have 6: "calculate_duration example_env ''2022-01-01'' = Inr ''Older''"
    using bucket_by_elapsed_days [OF example_clean(1) n(1) example_parse(1), of 884] d(6)
    by (simp add: example_now)
  from 1 2 3 4 5 6 d(6) show ?thesis by blast
qed

text \<open>
  C10. When the parsed timestamp lies after the clock reading, the day count is negative
  and the result is This Week.
\<close>

theorem future_date_is_this_week:
  assumes "clean_date_string s = Some c" and "c \<noteq> []"
    and "snd (parse_date L c) = Inr (Some pub)"
    and "datetime_now L (tzinfo pub) < wall pub"
  shows "(datetime_now L (tzinfo pub) - wall pub) div 86400000000 < 0
         \<and> calculate_duration L s = Inr ''This Week''"
proof -
  from assms(4) have neg: "(datetime_now L (tzinfo pub) - wall pub) div 86400000000 < 0"
    by (simp add: div_neg_pos_less0)
  have "calculate_duration L s =
      Inr (bucket ((datetime_now L (tzinfo pub) - wall pub) div 86400000000))"
    using calculate_duration_parsed [OF assms(1-3)] by (simp add: usec_per_day_def)
  with neg show ?thesis
    by (simp add: bucket_def)
qed

theorem future_date_is_this_week_witness:
  "datetime_now example_env (Some 7200) < at_day 739042 32400
   \<and> calculate_duration example_env ''2024-06-05T09:00:00+02:00'' = Inr ''This Week''"
proof -
  have f: "datetime_now example_env (tzinfo \<lparr>wall = at_day 739042 32400, tzinfo = Some (7200 :: int)\<rparr>)
             < wall \<lparr>wall = at_day 739042 32400, tzinfo = Some (7200 :: int)\<rparr>"
    by (simp add: example_now at_day_def usec_per_day_def)
  have n: "''2024-06-05T09:00:00+02:00'' \<noteq> []"
    by simp
  from future_date_is_this_week [OF example_clean(7) n example_parse(7) f] f
  show ?thesis by simp
qed

section \<open>Claims about the batch\<close>

subsection \<open>Deduplication\<close>

lemma drop_seen_subseq: "subseq (drop_seen seen key xs) xs"
  by (induction xs arbitrary: seen) auto

lemma drop_seen_keys: "key ` set (drop_seen seen key xs) = key ` set xs - set seen"
  by (induction xs arbitrary: seen) auto

lemma drop_seen_distinct: "distinct (map key (drop_seen seen key xs))"
proof (induction xs arbitrary: seen)
  case Nil
  show ?case by simp
next
  case (Cons x xs)
  have "key x \<notin> key ` set (drop_seen (key x # seen) key xs)"
    by (simp add: drop_seen_keys)
  with Cons show ?case by simp
qed

lemma drop_seen_first:
  "a \<in> set (drop_seen seen key xs) \<Longrightarrow> find (\<lambda>b. key b = key a) xs = Some a"
proof (induction xs arbitrary: seen)
  case Nil
  then show ?case by simp
next
  case (Cons x xs)
  show ?case
  proof (cases "key x \<in> set seen")
    case True
    with Cons.prems have a: "a \<in> set (drop_seen seen key xs)" by simp
    then have "key a \<in> key ` set xs - set seen"
      using drop_seen_keys [of key seen xs] by blast
    with True have "key x \<noteq> key a" by auto
    with Cons.IH [OF a] show ?thesis by simp
  next
    case False
    show ?thesis
    proof (cases "a = x")
      case True
      then show ?thesis by simp
    next
      case ne: False
      with False Cons.prems have a: "a \<in> set (drop_seen (key x # seen) key xs)" by simp
      then have "key a \<in> key ` set xs - set (key x # seen)"
        using drop_seen_keys [of key "key x # seen" xs] by blast
      then have "key x \<noteq> key a" by auto
      with Cons.IH [OF a] show ?thesis by simp
    qed
  qed
qed

lemma drop_seen_fixed:
  "distinct (map key ys) \<Longrightarrow> key ` set ys \<inter> set seen = {} \<Longrightarrow> drop_seen seen key ys = ys"
  by (induction ys arbitrary: seen) auto

lemma drop_seen_idem: "drop_seen [] key (drop_seen [] key xs) = drop_seen [] key xs"
  by (rule drop_seen_fixed) (simp_all add: drop_seen_distinct)

lemma drop_seen_Nil: "drop_seen seen key xs = [] \<longleftrightarrow> key ` set xs \<subseteq> set seen"
  using drop_seen_keys [of key seen xs] by (metis Diff_eq_empty_iff image_is_empty set_empty)

lemma drop_seen_same_kernel:
  assumes "\<And>x y. key x = key y \<longleftrightarrow> key' x = key' y"
  shows "drop_seen (map key ys) key xs = drop_seen (map key' ys) key' xs"
proof (induction xs arbitrary: ys)
  case Nil
  show ?case by simp
next
  case (Cons x xs)
  have "key x \<in> set (map key ys) \<longleftrightarrow> key' x \<in> set (map key' ys)"
    using assms by auto
  with Cons [of ys] Cons [of "x # ys"] show ?case by simp
qed

lemma drop_seen_same_kernel_Nil:
  assumes "\<And>x y. key x = key y \<longleftrightarrow> key' x = key' y"
  shows "drop_seen [] key xs = drop_seen [] key' xs"
  using drop_seen_same_kernel [of key key' "[]" xs] assms by simp

lemma title_link_values:
  "subset_values [''Title'', ''Link''] a = subset_values [''Title'', ''Link''] b
     \<longleftrightarrow> (Title a, Link a) = (Title b, Link b)"
  by (simp add: subset_values_def article_fields_def)

lemma remove_duplicates_rows:
  "remove_duplicates entries =
     Inr \<lparr>columns = (if entries = [] then [] else map fst article_fields),
          rows = drop_seen [] (\<lambda>a. (Title a, Link a)) entries\<rparr>"
proof (cases "entries = []")
  case True
  then show ?thesis
    by (simp add: remove_duplicates_def drop_duplicates_def DataFrame_def)
next
  case False
  have "drop_seen [] (subset_values [''Title'', ''Link'']) entries
      = drop_seen [] (\<lambda>a. (Title a, Link a)) entries"
    by (rule drop_seen_same_kernel_Nil) (rule title_link_values)
  with False show ?thesis
    by (simp add: remove_duplicates_def drop_duplicates_def DataFrame_def article_fields_def)
qed

text \<open>
  C5. Deduplication returns, for every batch, a frame whose rows are a subsequence of the
  batch (the order is kept), hold every (Title, Link) pair of the batch exactly once, and
  are each the first entry of the batch with their pair, whatever the other fields, the
  source among them, are; deduplicating the result again changes nothing.
\<close>

theorem remove_duplicates_keeps_first:
  "\<exists>df. remove_duplicates entries = Inr df
        \<and> subseq (rows df) entries
        \<and> distinct (map (\<lambda>a. (Title a, Link a)) (rows df))
        \<and> (\<lambda>a. (Title a, Link a)) ` set (rows df) = (\<lambda>a. (Title a, Link a)) ` set entries
        \<and> (\<forall>a \<in> set (rows df). find (\<lambda>b. Title b = Title a \<and> Link b = Link a) entries = Some a)
        \<and> remove_duplicates (rows df) = Inr df"
proof -
  define key where "key = (\<lambda>a :: article. (Title a, Link a))"
  define df where "df = \<lparr>columns = (if entries = [] then [] else map fst article_fields),
                         rows = drop_seen [] key entries\<rparr>"
  have r: "remove_duplicates entries = Inr df"
    by (simp add: remove_duplicates_rows df_def key_def)
  have e: "rows df = [] \<longleftrightarrow> entries = []"
    by (simp add: df_def drop_seen_Nil)
  have f: "find (\<lambda>b. Title b = Title a \<and> Link b = Link a) entries = Some a"
    if "a \<in> set (rows df)" for a
    using drop_seen_first [of a "[]" key entries] that by (simp add: df_def key_def)
  have i: "remove_duplicates (rows df) = Inr df"
    using e by (simp add: remove_duplicates_rows key_def [symmetric])
      (simp add: df_def drop_seen_idem)
  have "subseq (rows df) entries"
    by (simp add: df_def drop_seen_subseq)
  moreover have "distinct (map key (rows df))"
    by (simp add: df_def drop_seen_distinct)
  moreover have "key ` set (rows df) = key ` set entries"
    by (simp add: df_def drop_seen_keys)
  ultimately show ?thesis
    using r f i unfolding key_def by blast
qed

theorem remove_duplicates_keeps_first_witness:
  "\<exists>df. remove_duplicates example_batch = Inr df
        \<and> map Summary (rows df) = [''one'', ''two'', ''four'']
        \<and> map Source (rows df) = [''BBC'', ''BBC'', ''CNN'']
        \<and> remove_duplicates (rows df) = Inr df"
proof -
  from remove_duplicates_keeps_first [of example_batch]
  obtain df where df: "remove_duplicates example_batch = Inr df"
    and f: "\<forall>a \<in> set (rows df).
              find (\<lambda>b. Title b = Title a \<and> Link b = Link a) example_batch = Some a"
    and i: "remove_duplicates (rows df) = Inr df"
    by blast
  have "map Summary (drop_seen [] (\<lambda>a. (Title a, Link a)) example_batch) = [''one'', ''two'', ''four'']"
    by (simp add: example_batch_def)
  with df have s: "map Summary (rows df) = [''one'', ''two'', ''four'']"
    by (auto simp: remove_duplicates_rows)
  have "map Source (drop_seen [] (\<lambda>a. (Title a, Link a)) example_batch) = [''BBC'', ''BBC'', ''CNN'']"
    by (simp add: example_batch_def)
  with df have c: "map Source (rows df) = [''BBC'', ''BBC'', ''CNN'']"
    by (auto simp: remove_duplicates_rows)
  show ?thesis
  proof (intro exI conjI)
    show "remove_duplicates example_batch = Inr df" by (rule df)
    show "map Summary (rows df) = [''one'', ''two'', ''four'']" by (rule s)
    show "map Source (rows df) = [''BBC'', ''BBC'', ''CNN'']" by (rule c)
    show "remove_duplicates (rows df) = Inr df" by (rule i)
  qed
qed

subsection \<open>Counts per country\<close>

lemma dict_get_set: "dict_get (dict_set d k v) c dflt = (if c = k then v else dict_get d c dflt)"
  by (induction d) (auto simp: dict_get_def)

lemma dict_set_keys: "fst ` set (dict_set d k v) = insert k (fst ` set d)"
proof (induction d)
  case Nil
  show ?case by simp
next
  case (Cons p d)
  then show ?case
    by (cases p) (simp add: insert_commute)
qed

lemma dict_set_distinct: "distinct (map fst d) \<Longrightarrow> distinct (map fst (dict_set d k v))"
  by (induction d) (auto simp: dict_set_keys)

lemma dict_set_sum:
  "sum_list (map snd (dict_set d k (dict_get d k 0 + n))) = sum_list (map snd d) + (n :: nat)"
  by (induction d) (auto simp: dict_get_def)

lemma dict_set_sum_Suc:
  "sum_list (map snd (dict_set d k (Suc (dict_get d k 0)))) = Suc (sum_list (map snd d))"
  using dict_set_sum [of d k 1] by simp

lemma count_countries_sum:
  "sum_list (map snd (count_countries cc es)) = sum_list (map snd cc) + length es"
  by (induction es arbitrary: cc) (simp_all add: dict_set_sum_Suc)

lemma count_countries_distinct:
  "distinct (map fst cc) \<Longrightarrow> distinct (map fst (count_countries cc es))"
  by (induction es arbitrary: cc) (simp_all add: dict_set_distinct)

lemma count_countries_keys:
  "fst ` set (count_countries cc es) = fst ` set cc \<union> Country ` set es"
  by (induction es arbitrary: cc) (auto simp: dict_set_keys)

lemma count_countries_get:
  "dict_get (count_countries cc es) c 0 = dict_get cc c 0 + length (filter (\<lambda>e. Country e = c) es)"
  by (induction es arbitrary: cc) (auto simp: dict_get_set)

lemma map_of_key_value:
  "map_of (map (\<lambda>v. (v, f v)) ys) c = (if c \<in> set ys then Some (f c) else None)"
  by (induction ys) auto

lemma value_counts_lookup:
  "map_of (value_counts xs) c = (if c \<in> set xs then Some (count_list xs c) else None)"
  by (simp add: value_counts_def map_of_key_value)

lemma count_list_map: "count_list (map f xs) (f a) = length (filter (\<lambda>e. f e = f a) xs)"
  by (induction xs) auto

lemma value_counts_sum: "sum_list (map snd (value_counts xs)) = length xs"
proof -
  have "sum_list (map snd (value_counts xs)) = sum_list (map (count_list xs) (remdups xs))"
    by (simp add: value_counts_def comp_def)
  also have "\<dots> = sum (count_list xs) (set xs)"
    by (simp add: sum_list_distinct_conv_sum_set)
  also have "\<dots> = length xs"
    by (rule sum_count_set) simp_all
  finally show ?thesis .
qed

lemma save_to_csv_rows:
  assumes "batch \<noteq> []"
  shows "save_to_csv (DataFrame batch) =
     Inr \<lparr>header = map fst article_fields @ [''NoOfArticles''],
          csv_rows = map (\<lambda>a. (a, Some (length (filter (\<lambda>e. Country e = Country a) batch)))) batch\<rparr>"
proof -
  have g: "getitem (DataFrame batch) ''Country'' = Inr (map Country batch)"
    using assms by (simp add: getitem_def DataFrame_def article_fields_def)
  have m: "map (map_of (value_counts (map Country batch))) (map Country batch)
      = map (\<lambda>a. Some (length (filter (\<lambda>e. Country e = Country a) batch))) batch"
    by (simp add: value_counts_lookup count_list_map)
  have z: "zip batch (map f batch) = map (\<lambda>a. (a, f a)) batch" for f :: "article \<Rightarrow> nat option"
    by (induction batch) auto
  have "save_to_csv (DataFrame batch) =
      Inr \<lparr>header = columns (DataFrame batch) @ [''NoOfArticles''],
           csv_rows = zip (rows (DataFrame batch))
                        (map (map_of (value_counts (map Country batch))) (map Country batch))\<rparr>"
    unfolding save_to_csv_def g by (simp only: sum.case Let_def)
  also have "\<dots> = Inr \<lparr>header = columns (DataFrame batch) @ [''NoOfArticles''],
           csv_rows = zip batch
                        (map (\<lambda>a. Some (length (filter (\<lambda>e. Country e = Country a) batch))) batch)\<rparr>"
    unfolding m by (simp add: DataFrame_def)
  finally show ?thesis
    using assms unfolding z by (simp add: DataFrame_def)
qed

lemma count_countries_lookup:
  assumes "c \<in> Country ` set batch"
  shows "map_of (count_countries [] batch) c = Some (length (filter (\<lambda>e. Country e = c) batch))"
proof -
  from assms have "c \<in> fst ` set (count_countries [] batch)"
    by (simp add: count_countries_keys)
  then obtain n where n: "map_of (count_countries [] batch) c = Some n"
    by (metis domD dom_map_of_conv_image_fst)
  with count_countries_get [of "[]" batch c] show ?thesis
    by (simp add: dict_get_def)
qed

lemma store_loop_rows:
  assumes "\<forall>e \<in> set es. map_of cc (Country e) = Some (n (Country e))"
  shows "store_loop cc table es =
     Inr (foldl insert_or_ignore table
            (map (\<lambda>e. article.extend e (db_row.fields (n (Country e)))) es))"
  using assms by (induction es arbitrary: table) (simp_all add: dict_index_def)

text \<open>
  What \<open>_store_in_db\<close> does on every batch: each entry goes to the table, unless its link
  is there, with the number of entries of the batch that have its country.
\<close>

lemma store_in_db_rows:
  "store_in_db table batch =
     Inr (foldl insert_or_ignore table
            (map (\<lambda>e. article.extend e
                        (db_row.fields (length (filter (\<lambda>x. Country x = Country e) batch))))
               batch))"
  unfolding store_in_db_def
  by (rule store_loop_rows [where n = "\<lambda>c. length (filter (\<lambda>x. Country x = c) batch)"])
     (simp add: count_countries_lookup)

text \<open>
  The counts of a batch, in the dictionary of \<open>_store_in_db\<close> for every batch and in the
  rows of the csv export for every batch that is not empty, are the numbers of entries
  per country and add up to the number of entries.
\<close>

lemma country_counts_of_batch:
  "sum_list (map snd (count_countries [] batch)) = length batch
   \<and> distinct (map fst (count_countries [] batch))
   \<and> fst ` set (count_countries [] batch) = Country ` set batch
   \<and> (\<forall>c. dict_get (count_countries [] batch) c 0 = length (filter (\<lambda>e. Country e = c) batch))
   \<and> sum_list (map snd (value_counts (map Country batch))) = length batch"
proof (intro conjI allI)
  show "sum_list (map snd (count_countries [] batch)) = length batch"
    by (simp add: count_countries_sum)
  show "distinct (map fst (count_countries [] batch))"
    by (rule count_countries_distinct) simp
  show "fst ` set (count_countries [] batch) = Country ` set batch"
    by (simp add: count_countries_keys)
  show "dict_get (count_countries [] batch) c 0 = length (filter (\<lambda>e. Country e = c) batch)" for c
    by (simp add: count_countries_get) (simp add: dict_get_def)
  show "sum_list (map snd (value_counts (map Country batch))) = length batch"
    by (simp add: value_counts_sum)
qed

text \<open>
  C6. On the empty deduplicated batch, which is what deduplication returns when no entry
  was collected, \<open>_store_in_db\<close> builds the empty dictionary of counts and leaves the
  table alone, and the csv export raises \<open>KeyError\<close> on the country column: it computes
  no count for that batch.
\<close>

theorem country_counts_empty_batch:
  "remove_duplicates [] = Inr (DataFrame [])
   \<and> rows (DataFrame []) = []
   \<and> count_countries [] (rows (DataFrame [])) = []
   \<and> store_in_db [] (rows (DataFrame [])) = Inr []
   \<and> save_to_csv (DataFrame []) = Inl KeyError"
  by (simp add: remove_duplicates_def drop_duplicates_def DataFrame_def store_in_db_def
        save_to_csv_def getitem_def)

subsection \<open>Record assembly\<close>













subsection \<open>A run in which every feed fails\<close>

lemma save_to_csv_no_columns: "save_to_csv (DataFrame []) = Inl KeyError"
  by (simp add: save_to_csv_def getitem_def DataFrame_def)

lemma run_without_entries:
  assumes "scrape_all_feeds E rss_feeds = (printed, Inr [])"
  shows "run E rss_feeds w =
     (w\<lparr>out := out w @ JobStarted # printed @ [Stored 0 db_name]\<rparr>, Some KeyError)"
proof -
  have r: "remove_duplicates [] = Inr (DataFrame [])"
    by (simp add: remove_duplicates_def drop_duplicates_def DataFrame_def)
  have s: "store_in_db t [] = Inr t" for t
    by (simp add: store_in_db_def)
  have d: "rows (DataFrame []) = []"
    by (simp add: DataFrame_def)
  show ?thesis
    unfolding run_def assms
    by (simp add: r store_step_def s export_step_def save_to_csv_no_columns d Let_def)
qed

lemma parse_feed_unreachable:
  assumes "probe E (url f) = Inl RequestException \<or> (\<exists>n. probe E (url f) = Inr n \<and> n \<noteq> 200)"
  shows "parse_feed E f = ([NetworkError (url f)], Inr [])"
  using assms by (auto simp: parse_feed_def is_url_accessible_def)

lemma scrape_loop_unreachable:
  assumes "\<forall>f \<in> set fs.
      probe E (url f) = Inl RequestException \<or> (\<exists>n. probe E (url f) = Inr n \<and> n \<noteq> 200)"
  shows "snd (scrape_loop E fs entries) = Inr entries"
  using assms
proof (induction fs arbitrary: entries)
  case Nil
  show ?case by simp
next
  case (Cons f fs)
  then have p: "parse_feed E f = ([NetworkError (url f)], Inr [])"
    by (intro parse_feed_unreachable) simp
  from Cons have "snd (scrape_loop E fs entries) = Inr entries"
    by simp
  with p show ?case
    by (cases "scrape_loop E fs entries") simp_all
qed

text \<open>
  C2. The run in which a first feed answers with status 503 and a second cannot be
  reached collects no entry, leaves the table as it was, prints that 0 entries were
  stored, and then ends with \<open>KeyError\<close> in the csv export: no file is written and the
  end of the job is not printed. (By \<open>run_without_entries\<close> the same holds of every run
  that collects no entry.)
\<close>

theorem run_every_feed_fails:
  "run example_env
     [\<lparr>country = ''UK'', source = ''BBC'', url = ''http://down''\<rparr>,
      \<lparr>country = ''US'', source = ''CNN'', url = ''http://gone''\<rparr>]
     \<lparr>db = [], csv = None, out = []\<rparr>
   = (\<lparr>db = [], csv = None,
       out = [JobStarted,
              Processing ''UK'' ''BBC'', NetworkError ''http://down'', Added 0,
              Processing ''US'' ''CNN'', NetworkError ''http://gone'', Added 0,
              Stored 0 ''news.db'']\<rparr>,
      Some KeyError)"
proof -
  have p1: "parse_feed example_env \<lparr>country = ''UK'', source = ''BBC'', url = ''http://down''\<rparr>
      = ([NetworkError ''http://down''], Inr [])"
    by (simp add: parse_feed_def is_url_accessible_def example_env_def)
  have p2: "parse_feed example_env \<lparr>country = ''US'', source = ''CNN'', url = ''http://gone''\<rparr>
      = ([NetworkError ''http://gone''], Inr [])"
    by (simp add: parse_feed_def is_url_accessible_def example_env_def)
  have "scrape_all_feeds example_env
     [\<lparr>country = ''UK'', source = ''BBC'', url = ''http://down''\<rparr>,
      \<lparr>country = ''US'', source = ''CNN'', url = ''http://gone''\<rparr>]
    = ([Processing ''UK'' ''BBC'', NetworkError ''http://down'', Added 0,
        Processing ''US'' ''CNN'', NetworkError ''http://gone'', Added 0], Inr [])"
    by (simp add: scrape_all_feeds_def p1 p2)
  from run_without_entries [OF this, of "\<lparr>db = [], csv = None, out = []\<rparr>"]
  show ?thesis
    by (simp add: db_name_def)
qed

end
